theory Spec2Isabelle
  imports Complex_Main
begin

section \<open>Data model\<close>

text \<open>
  The hunting commands of \<^verbatim>\<open>cogs/ducks_hunting_commands.py\<close> work on \<^verbatim>\<open>Player\<close> rows.
  The class itself lives in \<^verbatim>\<open>utils.models\<close>; the record below holds the fields that
  \<^verbatim>\<open>bang\<close> and \<^verbatim>\<open>reload\<close> read or write. The two dictionaries \<^verbatim>\<open>active_powerups\<close> and
  \<^verbatim>\<open>shooting_stats\<close> are read with \<^verbatim>\<open>d[key]\<close> and updated with \<^verbatim>\<open>d[key] += 1\<close>, with no
  insertion and no membership test anywhere, so every key is present: they are total
  functions from the key to a Python integer.
\<close>

record player =
  pid :: nat
  member :: nat
  experience :: int
  bullets :: int
  magazines :: int
  weapon_confiscated :: bool
  weapon_jammed :: bool
  weapon_sabotaged_by :: "nat option"
  active_powerups :: "string \<Rightarrow> int"
  shooting_stats :: "string \<Rightarrow> int"

text \<open>The dictionary \<^verbatim>\<open>get_level_info\<close> returns, and the channel row.\<close>

record level_info =
  li_bullets :: int
  li_magazines :: int
  li_reliability :: int
  li_accuracy :: int

record channel =
  kill_on_miss_chance :: int
  mentions_when_killed :: bool

text \<open>
  Everything a command invocation reads from outside the player row: the context
  (\<^verbatim>\<open>ctx.author\<close>, the optional \<^verbatim>\<open>target\<close> argument), the clock, the database lookups
  \<^verbatim>\<open>get_player\<close>, \<^verbatim>\<open>get_random_player\<close>, \<^verbatim>\<open>get_from_db\<close>, the level table
  \<^verbatim>\<open>get_level_info\<close>, the method \<^verbatim>\<open>Player.is_powerup_active\<close>, whether
  \<^verbatim>\<open>ctx.target_next_duck()\<close> finds a duck, and the successive results of
  \<^verbatim>\<open>random.randint(1, 100)\<close>, numbered from 0 in the order they are drawn.
\<close>

record env =
  bot_ready :: bool
  now :: int
  author :: nat
  target :: "nat option"
  get_player :: "nat \<Rightarrow> player"
  get_random_player :: player
  db_channel :: channel
  get_level_info :: "int \<Rightarrow> level_info"
  is_powerup_active :: "player \<Rightarrow> string \<Rightarrow> bool"
  next_duck :: bool
  randint :: "nat \<Rightarrow> int"

text \<open>The reply that ends the command, one constructor per message of the source.\<close>

datatype outcome =
    Dead
  | Wet
  | Confiscated
  | Sabotaged nat
  | Jammed
  | Empty_magazine
  | Jam_roll_failed
  | Homing_self_kill
  | Suicide
  | Murder
  | Accidental_kill
  | Missed_tree
  | Shot_duck
  | Detector_stopped
  | No_duck

text \<open>
  \<^verbatim>\<open>db_target\<close> is either the very object \<^verbatim>\<open>db_hunter\<close> (after
  \<^verbatim>\<open>db_target = db_hunter\<close>) or an object of its own, loaded from the database.
\<close>

datatype target_obj = Is_db_hunter | Loaded player

text \<open>A call of \<^verbatim>\<open>save()\<close> with the row as it is written; \<^verbatim>\<open>asyncio.gather\<close> of two.\<close>

datatype save = Save player | Gather player player

text \<open>
  What one run of \<^verbatim>\<open>bang\<close> leaves behind: the reply, the object \<^verbatim>\<open>db_hunter\<close> at the
  end, the object \<^verbatim>\<open>db_target\<close> at the end if one was bound, the saves in order, the
  number of \<^verbatim>\<open>random.randint\<close> draws made, and the returned value (\<open>None\<close> for
  Python's \<^verbatim>\<open>None\<close>).
\<close>

record result =
  outcome :: outcome
  hunter :: player
  victim :: "target_obj option"
  saved :: "save list"
  draws :: nat
  returned :: "bool option"

section \<open>The chance trial\<close>

text \<open>
  \<^verbatim>\<open>compute_luck(luck_pct)\<close> draws \<^verbatim>\<open>current = random.randint(1, 100)\<close> and returns
  \<^verbatim>\<open>current <= luck_pct\<close>. The draw is the second argument. The percentage may be a
  halved accuracy (\<^verbatim>\<open>accuracy /= 2\<close>, a Python float), taken here as the exact
  rational.
\<close>

definition compute_luck :: "rat \<Rightarrow> int \<Rightarrow> bool" where
  "compute_luck luck_pct current = (of_int current \<le> luck_pct)"

section \<open>Dictionary updates\<close>

text \<open>\<^verbatim>\<open>d[k] += n\<close> on a dictionary, on the statistics and on the powerups of a row.\<close>

definition incr :: "(string \<Rightarrow> int) \<Rightarrow> string \<Rightarrow> int \<Rightarrow> (string \<Rightarrow> int)" where
  "incr d k n = d(k := d k + n)"

definition add_stat :: "string \<Rightarrow> int \<Rightarrow> player \<Rightarrow> player" where
  "add_stat k n p = p\<lparr>shooting_stats := incr (shooting_stats p) k n\<rparr>"

definition add_powerup :: "string \<Rightarrow> int \<Rightarrow> player \<Rightarrow> player" where
  "add_powerup k n p = p\<lparr>active_powerups := incr (active_powerups p) k n\<rparr>"

definition add_experience :: "int \<Rightarrow> player \<Rightarrow> player" where
  "add_experience n p = p\<lparr>experience := experience p + n\<rparr>"

text \<open>Python's \<^verbatim>\<open>int(x)\<close> on a number: truncation towards zero.\<close>

definition py_int :: "rat \<Rightarrow> int" where
  "py_int x = (if 0 \<le> x then \<lfloor>x\<rfloor> else \<lceil>x\<rceil>)"

section \<open>The command \<^verbatim>\<open>bang\<close>\<close>

text \<open>
  Every blocking check ends the same way: a statistic, \<^verbatim>\<open>await db_hunter.save()\<close>, a
  reply and \<^verbatim>\<open>return False\<close>.
\<close>

definition blocked :: "outcome \<Rightarrow> player \<Rightarrow> nat \<Rightarrow> result" where
  "blocked oc h n =
     \<lparr>outcome = oc, hunter = h, victim = None, saved = [Save h], draws = n,
      returned = Some False\<rparr>"

text \<open>
  Lines 212 to 229: the hunter is saved, then the next duck of the channel is asked for.
  What \<^verbatim>\<open>duck.shoot(args)\<close> does to the game is outside this file; the model stops at
  the call.
\<close>

definition clean_hit :: "env \<Rightarrow> player \<Rightarrow> nat \<Rightarrow> result" where
  "clean_hit e h n =
     (if next_duck e then
        \<lparr>outcome = Shot_duck, hunter = add_stat ''shots_with_duck'' 1 h, victim = None,
         saved = [Save h], draws = n, returned = None\<rparr>
      else if active_powerups h ''detector'' \<ge> 1 then
        (let h1 = add_powerup ''detector'' (- 1) h;
             h2 = add_stat ''shots_stopped_by_detector'' 1 h1;
             h3 = add_stat ''bullets_used'' (- 1) h2;
             h4 = h3\<lparr>bullets := bullets h3 + 1\<rparr>
         in \<lparr>outcome = Detector_stopped, hunter = h4, victim = None,
             saved = [Save h, Save h4], draws = n, returned = None\<rparr>)
      else
        (let h1 = add_stat ''shots_without_ducks'' 1 h;
             h2 = add_experience (- 2) h1
         in \<lparr>outcome = No_duck, hunter = h2, victim = None,
             saved = [Save h, Save h2], draws = n, returned = None\<rparr>))"

text \<open>
  Lines 183 to 203: which of the four death messages is sent. \<open>tgt\<close> is the variable
  \<^verbatim>\<open>target\<close> as it stands there (rebound to \<^verbatim>\<open>ctx.author\<close> by a homing bullet).
\<close>

definition kill_message :: "env \<Rightarrow> bool \<Rightarrow> nat option \<Rightarrow> outcome" where
  "kill_message e homing tgt =
     (if homing then Homing_self_kill
      else case tgt of
        Some m \<Rightarrow> if m = author e then Suicide else Murder
      | None \<Rightarrow> Accidental_kill)"

text \<open>
  Lines 173 to 176: \<^verbatim>\<open>if db_target.id != db_hunter.id\<close> both rows are saved with
  \<^verbatim>\<open>asyncio.gather\<close>, otherwise \<^verbatim>\<open>db_hunter\<close> alone.
\<close>

definition save_kill :: "player \<Rightarrow> target_obj \<Rightarrow> save list" where
  "save_kill h t =
     (case t of
        Is_db_hunter \<Rightarrow> [Save h]
      | Loaded p \<Rightarrow> if pid p \<noteq> pid h then [Gather p h] else [Save h])"

text \<open>
  Lines 156 to 205, the body of \<^verbatim>\<open>if killed_someone\<close>. With no target the victim is the
  row \<^verbatim>\<open>get_random_player\<close> returns, an object of its own. With a target the row of that
  member is loaded, and replaced by the object \<^verbatim>\<open>db_hunter\<close> when the ids agree; then
  the murder is counted, inside the \<^verbatim>\<open>else\<close> and after the inner \<^verbatim>\<open>if\<close>.
\<close>

definition killing :: "env \<Rightarrow> player \<Rightarrow> bool \<Rightarrow> nat option \<Rightarrow> nat \<Rightarrow> result" where
  "killing e h homing tgt n =
     (let h1 = add_stat ''killed'' 1 h;
          h2 = add_experience (- 15) h1;
          h3 = h2\<lparr>weapon_confiscated := True\<rparr>
      in case tgt of
        None \<Rightarrow>
          (let t = get_random_player e;
               t1 = add_stat ''got_killed'' 1 t;
               t2 = add_powerup ''dead'' 1 t1
           in \<lparr>outcome = kill_message e homing tgt, hunter = h3,
               victim = Some (Loaded t2), saved = save_kill h3 (Loaded t2),
               draws = n, returned = Some False\<rparr>)
      | Some m \<Rightarrow>
          (let t = get_player e m in
           if pid t = pid h3 then
             (let h4 = add_stat ''murders'' 1 h3;
                  h5 = add_stat ''got_killed'' 1 h4;
                  h6 = add_powerup ''dead'' 1 h5
              in \<lparr>outcome = kill_message e homing tgt, hunter = h6,
                  victim = Some Is_db_hunter, saved = save_kill h6 Is_db_hunter,
                  draws = n, returned = Some False\<rparr>)
           else
             (let h4 = add_stat ''murders'' 1 h3;
                  t1 = add_stat ''got_killed'' 1 t;
                  t2 = add_powerup ''dead'' 1 t1
              in \<lparr>outcome = kill_message e homing tgt, hunter = h4,
                  victim = Some (Loaded t2), saved = save_kill h4 (Loaded t2),
                  draws = n, returned = Some False\<rparr>)))"

text \<open>
  Lines 144 to 210, the body of the friendly-fire branch.
  \<^verbatim>\<open>killed_someone = target or compute_luck(...)\<close> draws only when there is no target.
\<close>

definition friendly_fire ::
  "env \<Rightarrow> player \<Rightarrow> bool \<Rightarrow> bool \<Rightarrow> nat option \<Rightarrow> nat \<Rightarrow> result" where
  "friendly_fire e h missed homing tgt n =
     (let h1 = (if missed then add_experience (- 2) (add_stat ''missed'' 1 h)
                else if homing then
                  add_experience (- 2)
                    (add_stat ''missed'' 1 (add_stat ''homing_kills'' 1 h))
                else h)
      in case tgt of
        Some m \<Rightarrow> killing e h1 homing tgt n
      | None \<Rightarrow>
          if compute_luck (of_int (kill_on_miss_chance (db_channel e))) (randint e n)
          then killing e h1 homing tgt (Suc n)
          else \<lparr>outcome = Missed_tree, hunter = h1, victim = None, saved = [Save h1],
                draws = Suc n, returned = Some False\<rparr>)"

text \<open>Lines 126 to 133: the accuracy after the mirror and the sight, and their charges.\<close>

definition aim :: "level_info \<Rightarrow> player \<Rightarrow> rat \<times> player" where
  "aim li h =
     (let a0 = of_int (li_accuracy li);
          (a1, h1) = (if active_powerups h ''mirror'' > 0
                      then (a0 / 2, add_powerup ''mirror'' (- 1) h) else (a0, h));
          (a2, h2) = (if active_powerups h1 ''sight'' > 0
                      then (a1 + of_int (py_int ((100 - a1) / 3)),
                            add_powerup ''sight'' (- 1) h1)
                      else (a1, h1))
      in (a2, h2))"

text \<open>
  Lines 126 to 229: the accuracy roll (draw number \<open>n\<close>), the homing override and the
  branch between the friendly-fire body and the rest.
\<close>

definition missing :: "env \<Rightarrow> level_info \<Rightarrow> player \<Rightarrow> nat \<Rightarrow> result" where
  "missing e li h n =
     (case aim li h of (accuracy, h1) \<Rightarrow>
        (let missed0 = (\<not> compute_luck accuracy (randint e n));
             homing = (active_powerups h1 ''homing_bullets'' \<ge> 1);
             h2 = (if homing then add_powerup ''homing_bullets'' (- 1) h1 else h1);
             missed = (if homing then False else missed0);
             tgt = (if homing then Some (author e) else target e)
         in if (missed \<and> tgt = None) \<or> (tgt \<noteq> None \<and> \<not> missed)
            then friendly_fire e h2 missed homing tgt (Suc n)
            else clean_hit e h2 (Suc n)))"

text \<open>
  Lines 106 to 112: the jam roll. \<^verbatim>\<open>lucky or compute_luck(...)\<close> and
  \<^verbatim>\<open>lucky and compute_luck(...)\<close> draw a second time only when the first draw does not
  decide. The result is the roll, the hunter (one \<^verbatim>\<open>sand\<close> charge less in the second
  branch) and the number of draws made.
\<close>

definition jam_roll :: "env \<Rightarrow> player \<Rightarrow> bool \<times> player \<times> nat" where
  "jam_roll e h =
     (let r = of_int (li_reliability (get_level_info e (experience h)));
          lucky = compute_luck r (randint e 0)
      in if is_powerup_active e h ''grease'' then
           (if lucky then (True, h, 1) else (compute_luck r (randint e 1), h, 2))
         else if active_powerups h ''sand'' > 0 then
           (let h1 = add_powerup ''sand'' (- 1) h
            in if lucky then (compute_luck r (randint e 1), h1, 2) else (False, h1, 1))
         else (lucky, h, 1))"

text \<open>Lines 121 and 122: the bullet is spent and counted.\<close>

definition spend_bullet :: "player \<Rightarrow> player" where
  "spend_bullet h = add_stat ''bullets_used'' 1 (h\<lparr>bullets := bullets h - 1\<rparr>)"

text \<open>Lines 105 to 229, entered once no blocking check fired.\<close>

definition jamming :: "env \<Rightarrow> player \<Rightarrow> result" where
  "jamming e h =
     (case jam_roll e h of (lucky, h1, n) \<Rightarrow>
        if \<not> lucky then
          blocked Jam_roll_failed
            ((add_stat ''shots_jamming_weapon'' 1 h1)\<lparr>weapon_jammed := True\<rparr>) n
        else missing e (get_level_info e (experience h)) (spend_bullet h1) n)"

text \<open>Lines 40 to 229: \<^verbatim>\<open>bang\<close> once \<^verbatim>\<open>db_hunter\<close> is loaded.\<close>

definition shoot :: "env \<Rightarrow> player \<Rightarrow> result" where
  "shoot e h =
     (if active_powerups h ''dead'' > 0 then
        blocked Dead (add_stat ''shots_when_dead'' 1 h) 0
      else if active_powerups h ''wet'' > now e then
        blocked Wet (add_stat ''shots_when_wet'' 1 h) 0
      else if weapon_confiscated h then
        blocked Confiscated (add_stat ''shots_when_confiscated'' 1 h) 0
      else case weapon_sabotaged_by h of
        Some s \<Rightarrow>
          blocked (Sabotaged s)
            (add_stat ''shots_when_sabotaged'' 1
               (h\<lparr>weapon_sabotaged_by := None, weapon_jammed := True\<rparr>)) 0
      | None \<Rightarrow>
          if weapon_jammed h then
            blocked Jammed (add_stat ''shots_when_jammed'' 1 h) 0
          else if bullets h \<le> 0 then
            blocked Empty_magazine (add_stat ''shots_with_empty_magazine'' 1 h) 0
          else jamming e h)"

text \<open>
  The command itself: while the bot is starting up it replies and returns before any row
  is loaded; otherwise \<^verbatim>\<open>db_hunter\<close> is the row of \<^verbatim>\<open>ctx.author\<close>, as
  \<^verbatim>\<open>get_player(ctx.author, ctx.channel, giveback=True)\<close> hands it over.
\<close>

datatype bang_result = Starting_up | Attempt result

definition bang :: "env \<Rightarrow> bang_result" where
  "bang e =
     (if \<not> bot_ready e then Starting_up
      else Attempt (shoot e (get_player e (author e))))"

section \<open>The command \<^verbatim>\<open>reload\<close>\<close>

datatype reload_outcome =
    Reload_confiscated
  | Unjammed
  | Reloaded
  | Unneeded_reload
  | No_magazines
  | No_reply

record reload_result =
  r_outcome :: reload_outcome
  r_hunter :: player
  r_saved :: "save list"
  r_returned :: "bool option"

definition reload :: "env \<Rightarrow> player \<Rightarrow> reload_result" where
  "reload e h =
     (if weapon_confiscated h then
        (let h1 = add_stat ''reloads_when_confiscated'' 1 h
         in \<lparr>r_outcome = Reload_confiscated, r_hunter = h1, r_saved = [Save h1],
             r_returned = Some False\<rparr>)
      else if weapon_jammed h then
        (let h1 = h\<lparr>weapon_jammed := False\<rparr>
         in \<lparr>r_outcome = Unjammed, r_hunter = h1, r_saved = [Save h1],
             r_returned = Some True\<rparr>)
      else
        (let level_info = get_level_info e (experience h) in
         if bullets h \<le> 0 \<and> magazines h \<ge> 1 then
           (let h1 = add_stat ''reloads'' 1 h;
                h2 = h1\<lparr>magazines := magazines h1 - 1\<rparr>;
                h3 = h2\<lparr>bullets := li_bullets level_info\<rparr>
            in \<lparr>r_outcome = Reloaded, r_hunter = h3, r_saved = [Save h3],
                r_returned = Some True\<rparr>)
         else if bullets h > 0 then
           (let h1 = add_stat ''unneeded_reloads'' 1 h
            in \<lparr>r_outcome = Unneeded_reload, r_hunter = h1, r_saved = [Save h1],
                r_returned = Some False\<rparr>)
         else if magazines h \<le> 0 then
           (let h1 = add_stat ''unneeded_reloads'' 1 h
            in \<lparr>r_outcome = No_magazines, r_hunter = h1, r_saved = [Save h1],
                r_returned = Some False\<rparr>)
         else \<lparr>r_outcome = No_reply, r_hunter = h, r_saved = [], r_returned = None\<rparr>))"

section \<open>Sequences of attempts\<close>

text \<open>
  Shot attempts of one player in a row, each starting from the row the one before left:
  the replies, in order.
\<close>

fun attempts :: "env list \<Rightarrow> player \<Rightarrow> outcome list" where
  "attempts [] h = []"
| "attempts (e # es) h = outcome (shoot e h) # attempts es (hunter (shoot e h))"

section \<open>Concrete players and invocations\<close>

text \<open>
  A hunter with one bullet and no powerups, a second player of the channel, the example
  tier of the specification (reliability 50, accuracy 50), and an invocation without a
  target in which every draw of \<^verbatim>\<open>random.randint\<close> is 1, so that every roll succeeds.
\<close>

definition hunter0 :: player where
  "hunter0 =
     \<lparr>pid = 1, member = 10, experience = 0, bullets = 1, magazines = 0,
      weapon_confiscated = False, weapon_jammed = False, weapon_sabotaged_by = None,
      active_powerups = (\<lambda>k. 0), shooting_stats = (\<lambda>k. 0)\<rparr>"

definition bystander :: player where
  "bystander =
     \<lparr>pid = 2, member = 20, experience = 0, bullets = 0, magazines = 0,
      weapon_confiscated = False, weapon_jammed = False, weapon_sabotaged_by = None,
      active_powerups = (\<lambda>k. 0), shooting_stats = (\<lambda>k. 0)\<rparr>"

definition level0 :: level_info where
  "level0 = \<lparr>li_bullets = 6, li_magazines = 2, li_reliability = 50, li_accuracy = 50\<rparr>"

definition env0 :: env where
  "env0 =
     \<lparr>bot_ready = True, now = 1000, author = 10, target = None,
      get_player = (\<lambda>m. if m = 10 then hunter0 else bystander),
      get_random_player = bystander,
      db_channel = \<lparr>kill_on_miss_chance = 5, mentions_when_killed = False\<rparr>,
      get_level_info = (\<lambda>x. level0),
      is_powerup_active = (\<lambda>p k. 1000 < active_powerups p k),
      next_duck = False,
      randint = (\<lambda>i. 1)\<rparr>"

text \<open>The same invocation with every draw 100: every roll below 100 percent fails.\<close>

definition env_unlucky :: env where
  "env_unlucky = env0\<lparr>randint := (\<lambda>i. 100)\<rparr>"

text \<open>The jam roll succeeds, the accuracy roll fails, the kill-on-miss roll succeeds.\<close>

definition env_stray :: env where
  "env_stray = env0\<lparr>randint := (\<lambda>i. if i = 1 then 100 else 1)\<rparr>"

text \<open>The hunter names themself, and names the other player.\<close>

definition env_self :: env where
  "env_self = env0\<lparr>target := Some 10\<rparr>"

definition env_other :: env where
  "env_other = env0\<lparr>target := Some 20\<rparr>"

text \<open>The hunter with one detector charge, with one homing bullet, and sabotaged.\<close>

definition hunter_detector :: player where
  "hunter_detector = hunter0\<lparr>active_powerups := (\<lambda>k. if k = ''detector'' then 1 else 0)\<rparr>"

definition hunter_homing :: player where
  "hunter_homing =
     hunter0\<lparr>active_powerups :=
       (\<lambda>k. if k = ''homing_bullets'' \<or> k = ''mirror'' then 1 else 0)\<rparr>"

definition env_homing :: env where
  "env_homing = env0\<lparr>get_player := (\<lambda>m. if m = 10 then hunter_homing else bystander)\<rparr>"

definition hunter_sabotaged :: player where
  "hunter_sabotaged = hunter0\<lparr>weapon_sabotaged_by := Some 2\<rparr>"

definition hunter_dead :: player where
  "hunter_dead =
     hunter0\<lparr>bullets := 0, active_powerups := (\<lambda>k. if k = ''dead'' then 1 else 0)\<rparr>"

definition hunter_empty :: player where
  "hunter_empty = hunter0\<lparr>bullets := 0\<rparr>"

section \<open>Rows that differ in their powerups only\<close>

definition same_but_powerups :: "player \<Rightarrow> player \<Rightarrow> bool" where
  "same_but_powerups a b = (b = a\<lparr>active_powerups := active_powerups b\<rparr>)"

text \<open>
  No target, the accuracy roll fails, the kill-on-miss roll succeeds, and
  \<^verbatim>\<open>get_random_player\<close> returns the row of the shooter.
\<close>

definition env_stray_self :: env where
  "env_stray_self = env_stray\<lparr>get_random_player := hunter0\<rparr>"

text \<open>The other player is named while a homing bullet is loaded.\<close>

definition env_homing_other :: env where
  "env_homing_other = env_homing\<lparr>target := Some 20\<rparr>"

text \<open>The other player is named and the accuracy roll fails.\<close>

definition env_other_missed :: env where
  "env_other_missed = env_stray\<lparr>target := Some 20\<rparr>"

section \<open>Unfolding the model at a concrete input\<close>

lemmas upd_defs = add_stat_def add_powerup_def add_experience_def incr_def

lemmas ex_defs = hunter0_def bystander_def level0_def env0_def env_unlucky_def env_stray_def
  env_self_def env_other_def hunter_detector_def hunter_homing_def env_homing_def
  hunter_sabotaged_def hunter_dead_def hunter_empty_def
  env_stray_self_def env_homing_other_def env_other_missed_def

lemmas run_defs = shoot_def jamming_def jam_roll_def spend_bullet_def missing_def aim_def
  friendly_fire_def killing_def kill_message_def save_kill_def clean_hit_def blocked_def
  compute_luck_def py_int_def Let_def

section \<open>Which reply each part can give\<close>

lemma clean_hit_outcome:
  "outcome (clean_hit e h n) \<in> {Shot_duck, Detector_stopped, No_duck}"
  by (simp add: clean_hit_def Let_def)

lemma killing_outcome: "outcome (killing e h hm tgt n) = kill_message e hm tgt"
  by (simp add: killing_def Let_def split: option.split)

lemma kill_message_cases:
  "kill_message e hm tgt \<in> {Homing_self_kill, Suicide, Murder, Accidental_kill}"
  by (simp add: kill_message_def split: option.split)

lemma friendly_fire_outcome:
  "outcome (friendly_fire e h ms hm tgt n)
     \<in> {Missed_tree, Homing_self_kill, Suicide, Murder, Accidental_kill}"
  using kill_message_cases [of e hm tgt]
  by (auto simp: friendly_fire_def Let_def killing_outcome split: option.split)

lemma missing_outcome:
  "outcome (missing e li h n)
     \<in> {Missed_tree, Homing_self_kill, Suicide, Murder, Accidental_kill,
         Shot_duck, Detector_stopped, No_duck}"
proof -
  obtain a h1 where a: "aim li h = (a, h1)" by (cases "aim li h")
  have ff: "\<And>h2 ms hm tgt. outcome (friendly_fire e h2 ms hm tgt (Suc n))
     \<in> {Missed_tree, Homing_self_kill, Suicide, Murder, Accidental_kill,
         Shot_duck, Detector_stopped, No_duck}"
    using friendly_fire_outcome by blast
  have ch: "\<And>h2. outcome (clean_hit e h2 (Suc n))
     \<in> {Missed_tree, Homing_self_kill, Suicide, Murder, Accidental_kill,
         Shot_duck, Detector_stopped, No_duck}"
    using clean_hit_outcome by blast
  show ?thesis
    unfolding missing_def a Let_def prod.case
    by (rule if_split [THEN iffD2]) (intro conjI impI ff ch)
qed

lemma jamming_outcome:
  "outcome (jamming e h)
     \<in> {Jam_roll_failed, Missed_tree, Homing_self_kill, Suicide, Murder, Accidental_kill,
         Shot_duck, Detector_stopped, No_duck}"
proof -
  obtain l h1 n where j: "jam_roll e h = (l, h1, n)" by (cases "jam_roll e h")
  show ?thesis
    using missing_outcome [of e "get_level_info e (experience h)" "spend_bullet h1" n]
    by (simp add: jamming_def j blocked_def)
qed


section \<open>What each part leaves unchanged\<close>

lemma jam_roll_frame:
  assumes "jam_roll e h = (l, h1, n)"
  shows "h1 = h\<lparr>active_powerups := active_powerups h1\<rparr>"
    and "k \<noteq> ''sand'' \<Longrightarrow> active_powerups h1 k = active_powerups h k"
    and "n = 1 \<or> n = 2"
  using assms by (auto simp: jam_roll_def Let_def upd_defs split: if_splits)

lemma aim_frame:
  assumes "aim li h = (a, h1)"
  shows "h1 = h\<lparr>active_powerups := active_powerups h1\<rparr>"
    and "k \<noteq> ''mirror'' \<Longrightarrow> k \<noteq> ''sight'' \<Longrightarrow> active_powerups h1 k = active_powerups h k"
    and "active_powerups h1 ''mirror'' =
           (if active_powerups h ''mirror'' > 0 then active_powerups h ''mirror'' - 1
            else active_powerups h ''mirror'')"
    and "active_powerups h1 ''sight'' =
           (if active_powerups h ''sight'' > 0 then active_powerups h ''sight'' - 1
            else active_powerups h ''sight'')"
  using assms by (auto simp: aim_def Let_def upd_defs split: if_splits)

lemma clean_hit_bullets:
  "bullets (hunter (clean_hit e h n)) =
     (if outcome (clean_hit e h n) = Detector_stopped then bullets h + 1 else bullets h)"
  by (simp add: clean_hit_def Let_def upd_defs)

lemma killing_bullets: "bullets (hunter (killing e h hm tgt n)) = bullets h"
  by (simp add: killing_def Let_def upd_defs split: option.split)

lemma friendly_fire_bullets: "bullets (hunter (friendly_fire e h ms hm tgt n)) = bullets h"
  by (simp add: friendly_fire_def Let_def killing_bullets upd_defs split: option.split)

lemma friendly_fire_draws: "n \<le> draws (friendly_fire e h ms hm tgt n)"
  by (simp add: friendly_fire_def Let_def killing_def split: option.split)

lemma clean_hit_draws: "draws (clean_hit e h n) = n"
  by (simp add: clean_hit_def Let_def)

lemma missing_bullets:
  "bullets (hunter (missing e li h n)) =
     (if outcome (missing e li h n) = Detector_stopped then bullets h + 1 else bullets h)
   \<and> n < draws (missing e li h n)"
proof -
  obtain a h1 where a: "aim li h = (a, h1)" by (cases "aim li h")
  have b: "bullets h1 = bullets h"
    using aim_frame(1) [OF a] by (metis player.select_convs(4) player.surjective player.update_convs(9))
  define hm where "hm = (1 \<le> active_powerups h1 ''homing_bullets'')"
  define h2 where "h2 = (if hm then add_powerup ''homing_bullets'' (- 1) h1 else h1)"
  have b2: "bullets h2 = bullets h" by (simp add: h2_def b upd_defs)
  have ff: "\<And>ms tgt. outcome (friendly_fire e h2 ms hm tgt (Suc n)) \<noteq> Detector_stopped"
    using friendly_fire_outcome by (metis insertE outcome.distinct singletonD)
  show ?thesis
    unfolding missing_def a Let_def prod.case hm_def [symmetric] h2_def [symmetric]
    apply (rule if_split [THEN iffD2])
    using friendly_fire_draws [of "Suc n" e h2]
    by (auto simp: friendly_fire_bullets clean_hit_bullets b2 ff clean_hit_draws Suc_le_eq)
qed

lemma shoot_open:
  assumes "active_powerups h ''dead'' \<le> 0" and "active_powerups h ''wet'' \<le> now e"
    and "\<not> weapon_confiscated h" and "weapon_sabotaged_by h = None"
    and "\<not> weapon_jammed h" and "0 < bullets h"
  shows "shoot e h = jamming e h"
  using assms by (simp add: shoot_def)

lemma frame_bullets: "h1 = h\<lparr>active_powerups := p\<rparr> \<Longrightarrow> bullets h1 = bullets h"
  by simp

section \<open>The path of a shot that is resolved\<close>

lemma blocked_outcome: "outcome (blocked oc h n) = oc"
  by (simp add: blocked_def)

lemma shoot_resolved:
  assumes "outcome (shoot e h)
     \<in> {Missed_tree, Homing_self_kill, Suicide, Murder, Accidental_kill,
         Shot_duck, Detector_stopped, No_duck}"
  shows "shoot e h = jamming e h"
  using assms by (auto simp: shoot_def blocked_outcome split: if_splits option.splits)

lemma jamming_resolved:
  assumes "outcome (jamming e h)
     \<in> {Missed_tree, Homing_self_kill, Suicide, Murder, Accidental_kill,
         Shot_duck, Detector_stopped, No_duck}"
  shows "\<exists>h1 n. jam_roll e h = (True, h1, n) \<and>
           jamming e h = missing e (get_level_info e (experience h)) (spend_bullet h1) n"
proof -
  obtain l h1 n where j: "jam_roll e h = (l, h1, n)" by (cases "jam_roll e h")
  have "l" using assms by (auto simp: jamming_def j blocked_outcome split: if_splits)
  then show ?thesis by (simp add: jamming_def j)
qed

lemma missing_branch:
  assumes a: "aim li h = (a, h1)"
  defines "hm \<equiv> 1 \<le> active_powerups h1 ''homing_bullets''"
  defines "h2 \<equiv> if hm then add_powerup ''homing_bullets'' (- 1) h1 else h1"
  shows "(\<exists>ms tgt. missing e li h n = friendly_fire e h2 ms hm tgt (Suc n) \<and>
            (hm \<longrightarrow> tgt = Some (author e)) \<and> (\<not> hm \<longrightarrow> tgt = target e) \<and>
            (ms \<longleftrightarrow> tgt = None)) \<or>
         (\<not> hm \<and> missing e li h n = clean_hit e h2 (Suc n))"
  unfolding missing_def a Let_def prod.case hm_def [symmetric] h2_def [symmetric]
  by (cases hm; cases "target e"; cases "compute_luck a (randint e n)") auto

lemma same_but_powerups_refl: "same_but_powerups a a"
  by (simp add: same_but_powerups_def)

lemma same_but_powerups_trans:
  "same_but_powerups a b \<Longrightarrow> same_but_powerups b c \<Longrightarrow> same_but_powerups a c"
  by (cases a; cases b; cases c) (simp add: same_but_powerups_def)

lemma same_but_powerups_fields:
  assumes "same_but_powerups a b"
  shows "pid b = pid a" "member b = member a" "experience b = experience a"
    "bullets b = bullets a" "magazines b = magazines a"
    "weapon_confiscated b = weapon_confiscated a" "weapon_jammed b = weapon_jammed a"
    "weapon_sabotaged_by b = weapon_sabotaged_by a" "shooting_stats b = shooting_stats a"
  using assms by (cases a; cases b; simp add: same_but_powerups_def)+

lemma same_but_powerups_add: "same_but_powerups a (add_powerup k n a)"
  by (simp add: same_but_powerups_def add_powerup_def)

lemma same_but_powerups_spend:
  "same_but_powerups a b \<Longrightarrow> same_but_powerups (spend_bullet a) (spend_bullet b)"
  by (cases a; cases b) (simp add: same_but_powerups_def spend_bullet_def add_stat_def)

lemma spend_bullet_powerups: "active_powerups (spend_bullet a) = active_powerups a"
  by (simp add: spend_bullet_def add_stat_def)

lemma shoot_path:
  assumes "outcome (shoot e h)
     \<in> {Missed_tree, Homing_self_kill, Suicide, Murder, Accidental_kill,
         Shot_duck, Detector_stopped, No_duck}"
  obtains h1 n h2 where "jam_roll e h = (True, h1, n)"
    and "same_but_powerups (spend_bullet h) h2"
    and "\<And>k. k \<noteq> ''sand'' \<Longrightarrow> k \<noteq> ''mirror'' \<Longrightarrow> k \<noteq> ''sight'' \<Longrightarrow>
           k \<noteq> ''homing_bullets'' \<Longrightarrow> active_powerups h2 k = active_powerups h k"
    and "active_powerups h2 ''homing_bullets'' =
        (if 1 \<le> active_powerups h ''homing_bullets''
         then active_powerups h ''homing_bullets'' - 1
         else active_powerups h ''homing_bullets'')"
    and "active_powerups h2 ''mirror'' =
        (if 0 < active_powerups h ''mirror'' then active_powerups h ''mirror'' - 1
         else active_powerups h ''mirror'')"
    and "active_powerups h2 ''sight'' =
        (if 0 < active_powerups h ''sight'' then active_powerups h ''sight'' - 1
         else active_powerups h ''sight'')"
    and "(\<exists>ms tgt. shoot e h =
              friendly_fire e h2 ms (1 \<le> active_powerups h ''homing_bullets'') tgt (Suc n) \<and>
            (1 \<le> active_powerups h ''homing_bullets'' \<longrightarrow> tgt = Some (author e)) \<and>
            (\<not> 1 \<le> active_powerups h ''homing_bullets'' \<longrightarrow> tgt = target e) \<and>
            (ms \<longleftrightarrow> tgt = None)) \<or>
         (\<not> 1 \<le> active_powerups h ''homing_bullets'' \<and> shoot e h = clean_hit e h2 (Suc n))"
proof -
  define hm where "hm = (1 \<le> active_powerups h ''homing_bullets'')"
  have s: "shoot e h = jamming e h" using assms(1) by (rule shoot_resolved)
  obtain h1 n where j: "jam_roll e h = (True, h1, n)"
    and m: "jamming e h = missing e (get_level_info e (experience h)) (spend_bullet h1) n"
    using jamming_resolved [of e h] assms(1) unfolding s by blast
  have f1: "same_but_powerups h h1"
    using jam_roll_frame(1) [OF j] by (simp add: same_but_powerups_def)
  have p1: "\<And>k. k \<noteq> ''sand'' \<Longrightarrow> active_powerups h1 k = active_powerups h k"
    using jam_roll_frame(2) [OF j] by blast
  obtain a h1' where a: "aim (get_level_info e (experience h)) (spend_bullet h1) = (a, h1')"
    by (cases "aim (get_level_info e (experience h)) (spend_bullet h1)")
  have f2: "same_but_powerups (spend_bullet h1) h1'"
    using aim_frame(1) [OF a] by (simp add: same_but_powerups_def)
  have p2: "\<And>k. k \<noteq> ''mirror'' \<Longrightarrow> k \<noteq> ''sight'' \<Longrightarrow> active_powerups h1' k = active_powerups h1 k"
    using aim_frame(2) [OF a] by (simp add: spend_bullet_powerups)
  have mi: "active_powerups h1' ''mirror'' =
        (if 0 < active_powerups h ''mirror'' then active_powerups h ''mirror'' - 1
         else active_powerups h ''mirror'')"
    using aim_frame(3) [OF a] p1 [of "''mirror''"] by (simp add: spend_bullet_powerups)
  have si: "active_powerups h1' ''sight'' =
        (if 0 < active_powerups h ''sight'' then active_powerups h ''sight'' - 1
         else active_powerups h ''sight'')"
    using aim_frame(4) [OF a] p1 [of "''sight''"] by (simp add: spend_bullet_powerups)
  have ho: "active_powerups h1' ''homing_bullets'' = active_powerups h ''homing_bullets''"
    using p2 [of "''homing_bullets''"] p1 [of "''homing_bullets''"] by simp
  define h2 where "h2 = (if hm then add_powerup ''homing_bullets'' (- 1) h1' else h1')"
  have f3: "same_but_powerups h1' h2"
    by (simp add: h2_def same_but_powerups_add same_but_powerups_refl)
  have f: "same_but_powerups (spend_bullet h) h2"
    using same_but_powerups_spend [OF f1] f2 f3 same_but_powerups_trans by blast
  have p3: "\<And>k. k \<noteq> ''homing_bullets'' \<Longrightarrow> active_powerups h2 k = active_powerups h1' k"
    by (simp add: h2_def upd_defs)
  have po: "\<And>k. k \<noteq> ''sand'' \<Longrightarrow> k \<noteq> ''mirror'' \<Longrightarrow> k \<noteq> ''sight'' \<Longrightarrow>
           k \<noteq> ''homing_bullets'' \<Longrightarrow> active_powerups h2 k = active_powerups h k"
    using p1 p2 p3 by simp
  have ho2: "active_powerups h2 ''homing_bullets'' =
        (if hm then active_powerups h ''homing_bullets'' - 1
         else active_powerups h ''homing_bullets'')"
    by (simp add: h2_def upd_defs ho)
  have mi2: "active_powerups h2 ''mirror'' =
        (if 0 < active_powerups h ''mirror'' then active_powerups h ''mirror'' - 1
         else active_powerups h ''mirror'')"
    using mi p3 [of "''mirror''"] by simp
  have si2: "active_powerups h2 ''sight'' =
        (if 0 < active_powerups h ''sight'' then active_powerups h ''sight'' - 1
         else active_powerups h ''sight'')"
    using si p3 [of "''sight''"] by simp
  have br: "(\<exists>ms tgt. shoot e h = friendly_fire e h2 ms hm tgt (Suc n) \<and>
            (hm \<longrightarrow> tgt = Some (author e)) \<and> (\<not> hm \<longrightarrow> tgt = target e) \<and>
            (ms \<longleftrightarrow> tgt = None)) \<or>
       (\<not> hm \<and> shoot e h = clean_hit e h2 (Suc n))"
    using missing_branch [OF a, of e n] unfolding s m h2_def hm_def ho by blast
  show ?thesis
    using that [OF j f po ho2 [unfolded hm_def] mi2 si2 br [unfolded hm_def]] by blast
qed

lemma clean_hit_detector:
  assumes "1 \<le> active_powerups h ''detector''" and "\<not> next_duck e"
  shows "outcome (clean_hit e h n) = Detector_stopped"
    and "active_powerups (hunter (clean_hit e h n)) ''detector'' = active_powerups h ''detector'' - 1"
    and "bullets (hunter (clean_hit e h n)) = bullets h + 1"
    and "shooting_stats (hunter (clean_hit e h n)) ''bullets_used'' = shooting_stats h ''bullets_used'' - 1"
    and "shooting_stats (hunter (clean_hit e h n)) ''shots_stopped_by_detector'' = shooting_stats h ''shots_stopped_by_detector'' + 1"
    and "experience (hunter (clean_hit e h n)) = experience h"
    and "saved (clean_hit e h n) = [Save h, Save (hunter (clean_hit e h n))]"
  using assms by (simp_all add: clean_hit_def Let_def upd_defs)

lemma friendly_fire_death:
  fixes e h ms hm tgt n
  defines "r \<equiv> friendly_fire e h ms hm tgt n"
  assumes "outcome r \<noteq> Missed_tree" and "ms \<longleftrightarrow> tgt = None"
  shows "weapon_confiscated (hunter r)"
    and "experience (hunter r) = experience h - 15 - (if ms \<or> hm then 2 else 0)"
    and "shooting_stats (hunter r) ''killed'' = shooting_stats h ''killed'' + 1"
    and "outcome r = kill_message e hm tgt"
    and "draws r = (if tgt = None then Suc n else n)"
    and "bullets (hunter r) = bullets h"
    and "tgt = None \<Longrightarrow>
           victim r = Some (Loaded (add_powerup ''dead'' 1
                              (add_stat ''got_killed'' 1 (get_random_player e)))) \<and>
           active_powerups (hunter r) = active_powerups h \<and>
           shooting_stats (hunter r) ''murders'' = shooting_stats h ''murders'' \<and>
           shooting_stats (hunter r) ''got_killed'' = shooting_stats h ''got_killed'' \<and>
           (pid (get_random_player e) = pid h \<longrightarrow> saved r = [Save (hunter r)])"
    and "tgt = Some m \<Longrightarrow> pid (get_player e m) = pid h \<Longrightarrow>
           victim r = Some Is_db_hunter \<and>
           active_powerups (hunter r) ''dead'' = active_powerups h ''dead'' + 1 \<and>
           (\<forall>k. k \<noteq> ''dead'' \<longrightarrow> active_powerups (hunter r) k = active_powerups h k) \<and>
           shooting_stats (hunter r) ''got_killed'' = shooting_stats h ''got_killed'' + 1 \<and>
           shooting_stats (hunter r) ''murders'' = shooting_stats h ''murders'' + 1 \<and>
           saved r = [Save (hunter r)]"
    and "tgt = Some m \<Longrightarrow> pid (get_player e m) \<noteq> pid h \<Longrightarrow>
           victim r = Some (Loaded (add_powerup ''dead'' 1
                              (add_stat ''got_killed'' 1 (get_player e m)))) \<and>
           active_powerups (hunter r) = active_powerups h \<and>
           shooting_stats (hunter r) ''murders'' = shooting_stats h ''murders'' + 1 \<and>
           saved r = [Gather (add_powerup ''dead'' 1
                        (add_stat ''got_killed'' 1 (get_player e m))) (hunter r)]"
  using assms(2,3) unfolding r_def
  by (auto simp: friendly_fire_def killing_def kill_message_def save_kill_def upd_defs Let_def
      split: option.splits if_splits)

lemma bang_attempt:
  assumes "bang e = Attempt r"
  shows "bot_ready e" and "r = shoot e (get_player e (author e))"
  using assms by (auto simp: bang_def split: if_splits)

lemma spend_bullet_fields:
  "experience (spend_bullet h) = experience h"
  "pid (spend_bullet h) = pid h"
  "bullets (spend_bullet h) = bullets h - 1"
  "weapon_confiscated (spend_bullet h) = weapon_confiscated h"
  "k \<noteq> ''bullets_used'' \<Longrightarrow> shooting_stats (spend_bullet h) k = shooting_stats h k"
  "shooting_stats (spend_bullet h) ''bullets_used'' = shooting_stats h ''bullets_used'' + 1"
  by (simp_all add: spend_bullet_def upd_defs)

lemma jam_roll_randint:
  assumes "jam_roll e h = (l, h1, n)" and "\<forall>i<n. f i = randint e i"
  shows "jam_roll (e\<lparr>randint := f\<rparr>) h = (l, h1, n)"
proof -
  have n: "n = 1 \<or> n = 2" using jam_roll_frame(3) [OF assms(1)] .
  have f0: "f 0 = randint e 0" using assms(2) n by auto
  show ?thesis
  proof (cases "n = 2")
    case True
    then have f1: "f (Suc 0) = randint e (Suc 0)" using assms(2) by auto
    have "jam_roll (e\<lparr>randint := f\<rparr>) h = jam_roll e h"
      by (simp add: jam_roll_def Let_def f0 f1)
    then show ?thesis using assms(1) by simp
  next
    case False
    then have "n = 1" using n by simp
    then show ?thesis using assms(1)
      by (auto simp: jam_roll_def Let_def f0 split: if_splits)
  qed
qed

lemma friendly_fire_randint:
  "friendly_fire (e\<lparr>randint := f\<rparr>) h ms hm (Some m) n = friendly_fire e h ms hm (Some m) n"
  by (simp add: friendly_fire_def killing_def kill_message_def Let_def)

lemma homing_explicit:
  assumes "active_powerups h ''dead'' \<le> 0" and "active_powerups h ''wet'' \<le> now e"
    and "\<not> weapon_confiscated h" and "weapon_sabotaged_by h = None"
    and "\<not> weapon_jammed h" and "0 < bullets h"
    and "jam_roll e h = (True, h1, n)"
    and "1 \<le> active_powerups h ''homing_bullets''"
  shows "shoot e h =
           friendly_fire e
             (add_powerup ''homing_bullets'' (- 1)
                (snd (aim (get_level_info e (experience h)) (spend_bullet h1))))
             False True (Some (author e)) (Suc n)"
proof -
  have s: "shoot e h = jamming e h" using assms(1-6) by (rule shoot_open)
  obtain a h1' where a: "aim (get_level_info e (experience h)) (spend_bullet h1) = (a, h1')"
    by (cases "aim (get_level_info e (experience h)) (spend_bullet h1)")
  have "active_powerups h1' ''homing_bullets'' = active_powerups h1 ''homing_bullets''"
    using aim_frame(2) [OF a, of "''homing_bullets''"] by (simp add: spend_bullet_powerups)
  also have "\<dots> = active_powerups h ''homing_bullets''"
    using jam_roll_frame(2) [OF assms(7), of "''homing_bullets''"] by simp
  finally have ho: "1 \<le> active_powerups h1' ''homing_bullets''" using assms(8) by simp
  show ?thesis
    by (simp add: s jamming_def assms(7) missing_def a Let_def ho)
qed

lemma jammed_attempt:
  assumes "active_powerups h ''dead'' \<le> 0" and "\<not> weapon_confiscated h"
    and "weapon_sabotaged_by h = None" and "weapon_jammed h"
  shows "outcome (shoot e h) = (if now e < active_powerups h ''wet'' then Wet else Jammed)"
    and "active_powerups (hunter (shoot e h)) = active_powerups h"
    and "\<not> weapon_confiscated (hunter (shoot e h))"
    and "weapon_sabotaged_by (hunter (shoot e h)) = None"
    and "weapon_jammed (hunter (shoot e h))"
  using assms by (simp_all add: shoot_def blocked_def add_stat_def)

lemma attempts_jammed:
  assumes "active_powerups h ''dead'' \<le> 0" and "\<not> weapon_confiscated h"
    and "weapon_sabotaged_by h = None" and "weapon_jammed h"
  shows "attempts es h =
           map (\<lambda>e. if now e < active_powerups h ''wet'' then Wet else Jammed) es"
  using assms
proof (induction es arbitrary: h)
  case Nil
  then show ?case by simp
next
  case (Cons e es)
  note J = jammed_attempt [OF Cons.prems, of e]
  have "attempts es (hunter (shoot e h)) =
          map (\<lambda>e'. if now e' < active_powerups (hunter (shoot e h)) ''wet'' then Wet else Jammed) es"
    using Cons.IH [of "hunter (shoot e h)"] J Cons.prems(1) by simp
  then show ?case using J by simp
qed

lemma path_frame:
  assumes j: "jam_roll e h = (l, h1, n)"
    and a: "aim li (spend_bullet h1) = (a, hx)"
    and h2: "h2 = (if c then add_powerup ''homing_bullets'' (- 1) hx else hx)"
  shows "same_but_powerups (spend_bullet h) h2"
    and "active_powerups hx ''homing_bullets'' = active_powerups h ''homing_bullets''"
    and "active_powerups h2 ''dead'' = active_powerups h ''dead''"
proof -
  have f1: "same_but_powerups h h1"
    using jam_roll_frame(1) [OF j] by (simp add: same_but_powerups_def)
  have f2: "same_but_powerups (spend_bullet h1) hx"
    using aim_frame(1) [OF a] by (simp add: same_but_powerups_def)
  have f3: "same_but_powerups hx h2"
    by (simp add: h2 same_but_powerups_add same_but_powerups_refl)
  show "same_but_powerups (spend_bullet h) h2"
    using same_but_powerups_spend [OF f1] f2 f3 same_but_powerups_trans by blast
  show ho: "active_powerups hx ''homing_bullets'' = active_powerups h ''homing_bullets''"
    using aim_frame(2) [OF a, of "''homing_bullets''"]
      jam_roll_frame(2) [OF j, of "''homing_bullets''"]
    by (simp add: spend_bullet_powerups)
  have "active_powerups hx ''dead'' = active_powerups h ''dead''"
    using aim_frame(2) [OF a, of "''dead''"] jam_roll_frame(2) [OF j, of "''dead''"]
    by (simp add: spend_bullet_powerups)
  then show "active_powerups h2 ''dead'' = active_powerups h ''dead''"
    by (simp add: h2 upd_defs)
qed

lemma missing_named:
  assumes "aim li h = (a, hx)" and "target e = Some m"
  shows "missing e li h n =
           (if 1 \<le> active_powerups hx ''homing_bullets'' then
              friendly_fire e (add_powerup ''homing_bullets'' (- 1) hx)
                False True (Some (author e)) (Suc n)
            else if compute_luck a (randint e n) then
              friendly_fire e hx False False (Some m) (Suc n)
            else clean_hit e hx (Suc n))"
  using assms by (simp add: missing_def Let_def)

lemma friendly_fire_named_outcome:
  "outcome (friendly_fire e h ms hm (Some m) n) = kill_message e hm (Some m)"
  by (simp add: friendly_fire_def killing_outcome)

lemma clean_hit_frame:
  "victim (clean_hit e h n) = None"
  "shooting_stats (hunter (clean_hit e h n)) ''murders'' = shooting_stats h ''murders''"
  by (simp_all add: clean_hit_def Let_def upd_defs)

section \<open>The chance trial\<close>

text \<open>
  C6. \<^verbatim>\<open>compute_luck(p)\<close> compares a draw from 1 to 100 with \<open>p\<close>: on any such draw \<open>d\<close> it
  returns true exactly when \<open>d \<le> p\<close>. So for \<open>p \<le> 0\<close> it is false on every draw, and for
  \<open>p \<ge> 100\<close> it is true on every draw. (The draw is a parameter of the model; that it is
  uniform is a property of \<^verbatim>\<open>random.randint\<close>.)
\<close>

theorem compute_luck_trial:
  "1 \<le> d \<Longrightarrow> d \<le> 100 \<Longrightarrow>
     (compute_luck p d \<longleftrightarrow> of_int d \<le> p) \<and>
     (p \<le> 0 \<longrightarrow> \<not> compute_luck p d) \<and>
     (100 \<le> p \<longrightarrow> compute_luck p d)"
  unfolding compute_luck_def
proof (intro conjI impI)
  assume d: "1 \<le> d" "d \<le> 100"
  show "(of_int d \<le> p) = (of_int d \<le> p)" ..
  { assume "p \<le> 0"
    moreover have "(0::rat) < of_int d" using d by simp
    ultimately show "\<not> of_int d \<le> p" by linarith }
  { assume "100 \<le> p"
    moreover have "(of_int d :: rat) \<le> 100" using d by (metis of_int_le_iff of_int_numeral)
    ultimately show "of_int d \<le> p" by linarith }
qed

theorem compute_luck_trial_witness:
  "compute_luck 50 37 \<and> \<not> compute_luck 50 51 \<and> \<not> compute_luck (- 5) 1 \<and>
   \<not> compute_luck 0 1 \<and> compute_luck 100 100 \<and> compute_luck 250 100"
  using compute_luck_trial [of 37 50] compute_luck_trial [of 51 50]
    compute_luck_trial [of 1 "- 5"] compute_luck_trial [of 1 0]
    compute_luck_trial [of 100 100] compute_luck_trial [of 100 250]
  by simp

section \<open>The order of the blocking checks\<close>

text \<open>
  C2. Once \<^verbatim>\<open>db_hunter\<close> is loaded, the checks run in the order dead, wet, confiscated,
  sabotaged, jammed, empty: each reply is given exactly when its own check fires and none
  of the earlier ones does. In particular a hunter who is dead and has no bullet is told
  they are dead, never that the magazine is empty.
\<close>

theorem gate_order:
  fixes e h
  defines "r \<equiv> shoot e h"
  defines "dead \<equiv> active_powerups h ''dead'' > 0"
  defines "wet \<equiv> active_powerups h ''wet'' > now e"
  defines "sabotaged \<equiv> weapon_sabotaged_by h \<noteq> None"
  shows "(outcome r = Dead \<longleftrightarrow> dead) \<and>
         (outcome r = Wet \<longleftrightarrow> \<not> dead \<and> wet) \<and>
         (outcome r = Confiscated \<longleftrightarrow> \<not> dead \<and> \<not> wet \<and> weapon_confiscated h) \<and>
         ((\<exists>s. outcome r = Sabotaged s) \<longleftrightarrow>
            \<not> dead \<and> \<not> wet \<and> \<not> weapon_confiscated h \<and> sabotaged) \<and>
         (outcome r = Jammed \<longleftrightarrow>
            \<not> dead \<and> \<not> wet \<and> \<not> weapon_confiscated h \<and> \<not> sabotaged \<and> weapon_jammed h) \<and>
         (outcome r = Empty_magazine \<longleftrightarrow>
            \<not> dead \<and> \<not> wet \<and> \<not> weapon_confiscated h \<and> \<not> sabotaged \<and>
            \<not> weapon_jammed h \<and> bullets h \<le> 0) \<and>
         (dead \<and> bullets h \<le> 0 \<longrightarrow> outcome r = Dead \<and> outcome r \<noteq> Empty_magazine)"
  using jamming_outcome [of e h]
  unfolding r_def dead_def wet_def sabotaged_def
  by (auto simp: shoot_def blocked_def split: option.splits)

theorem gate_order_witness:
  "outcome (shoot env0 hunter_dead) = Dead \<and>
   outcome (shoot env0 hunter_dead) \<noteq> Empty_magazine \<and>
   outcome (shoot env0 hunter_empty) = Empty_magazine \<and>
   (\<exists>s. outcome (shoot env0 hunter_sabotaged) = Sabotaged s)"
proof -
  have a: "0 < active_powerups hunter_dead ''dead''" "bullets hunter_dead \<le> 0"
    by (simp_all add: ex_defs)
  have b: "\<not> 0 < active_powerups hunter_empty ''dead''"
    "\<not> now env0 < active_powerups hunter_empty ''wet''"
    "\<not> weapon_confiscated hunter_empty" "weapon_sabotaged_by hunter_empty = None"
    "\<not> weapon_jammed hunter_empty" "bullets hunter_empty \<le> 0"
    by (simp_all add: ex_defs)
  have c: "\<not> 0 < active_powerups hunter_sabotaged ''dead''"
    "\<not> now env0 < active_powerups hunter_sabotaged ''wet''"
    "\<not> weapon_confiscated hunter_sabotaged" "weapon_sabotaged_by hunter_sabotaged \<noteq> None"
    by (simp_all add: ex_defs)
  show ?thesis
    using gate_order [of env0 hunter_dead] gate_order [of env0 hunter_empty]
      gate_order [of env0 hunter_sabotaged] a b c
    by blast
qed

section \<open>Bullet accounting\<close>

text \<open>
  A shot that passes every check and the jam roll, makes the accuracy roll (two draws) and
  is stopped by the detector ends with as many bullets as it started with, not one less.
\<close>

theorem bullet_refund_counterexample:
  "active_powerups hunter_detector ''dead'' \<le> 0 \<and>
   active_powerups hunter_detector ''wet'' \<le> now env0 \<and>
   \<not> weapon_confiscated hunter_detector \<and>
   weapon_sabotaged_by hunter_detector = None \<and>
   \<not> weapon_jammed hunter_detector \<and>
   0 < bullets hunter_detector \<and>
   fst (jam_roll env0 hunter_detector) \<and>
   draws (shoot env0 hunter_detector) = 2 \<and>
   bullets (hunter (shoot env0 hunter_detector)) = bullets hunter_detector \<and>
   bullets (hunter (shoot env0 hunter_detector)) \<noteq> bullets hunter_detector - 1"
  by (simp add: ex_defs run_defs upd_defs)

text \<open>
  C1, amended. For a shot attempt that passes the blocking checks: if the jam roll fails,
  the weapon is jammed, the reply is the jam, and \<^verbatim>\<open>bullets\<close> is unchanged. If it
  succeeds, the accuracy roll is made on a hunter with exactly one bullet less, and the
  attempt ends with one bullet less unless the detector stops the shot, in which case the
  bullet is given back and \<^verbatim>\<open>bullets\<close> is what it was before the shot.
\<close>

theorem bullet_accounting:
  assumes "active_powerups h ''dead'' \<le> 0" and "active_powerups h ''wet'' \<le> now e"
    and "\<not> weapon_confiscated h" and "weapon_sabotaged_by h = None"
    and "\<not> weapon_jammed h" and "0 < bullets h"
    and "jam_roll e h = (lucky, h1, n)"
  shows "(\<not> lucky \<longrightarrow>
            outcome (shoot e h) = Jam_roll_failed \<and>
            weapon_jammed (hunter (shoot e h)) \<and>
            bullets (hunter (shoot e h)) = bullets h \<and>
            draws (shoot e h) = n) \<and>
         (lucky \<longrightarrow>
            shoot e h = missing e (get_level_info e (experience h)) (spend_bullet h1) n \<and>
            bullets (spend_bullet h1) = bullets h - 1 \<and>
            n < draws (shoot e h) \<and>
            bullets (hunter (shoot e h)) =
              (if outcome (shoot e h) = Detector_stopped then bullets h
               else bullets h - 1))"
proof -
  have s: "shoot e h = jamming e h" using assms(1-6) by (rule shoot_open)
  have b: "bullets h1 = bullets h"
    using jam_roll_frame(1) [OF assms(7)] by (rule frame_bullets)
  have sb: "bullets (spend_bullet h1) = bullets h - 1"
    by (simp add: spend_bullet_def add_stat_def b)
  show ?thesis
  proof (intro conjI impI)
    assume "\<not> lucky"
    then have j: "jamming e h = blocked Jam_roll_failed
            ((add_stat ''shots_jamming_weapon'' 1 h1)\<lparr>weapon_jammed := True\<rparr>) n"
      by (simp add: jamming_def assms(7))
    show "outcome (shoot e h) = Jam_roll_failed" by (simp add: s j blocked_def)
    show "weapon_jammed (hunter (shoot e h))" by (simp add: s j blocked_def)
    show "bullets (hunter (shoot e h)) = bullets h" by (simp add: s j blocked_def add_stat_def b)
    show "draws (shoot e h) = n" by (simp add: s j blocked_def)
  next
    assume "lucky"
    then show m: "shoot e h = missing e (get_level_info e (experience h)) (spend_bullet h1) n"
      by (simp add: s jamming_def assms(7))
    show "bullets (spend_bullet h1) = bullets h - 1" by (rule sb)
    show "n < draws (shoot e h)" using missing_bullets unfolding m by blast
    show "bullets (hunter (shoot e h)) =
              (if outcome (shoot e h) = Detector_stopped then bullets h
               else bullets h - 1)"
      unfolding m using missing_bullets [of e "get_level_info e (experience h)" "spend_bullet h1" n]
      by (simp add: sb)
  qed
qed

theorem bullet_accounting_witness:
  "outcome (shoot env_unlucky hunter0) = Jam_roll_failed \<and>
   bullets (hunter (shoot env_unlucky hunter0)) = 1 \<and>
   outcome (shoot env0 hunter_detector) = Detector_stopped \<and>
   bullets (hunter (shoot env0 hunter_detector)) = 1 \<and>
   outcome (shoot env0 hunter0) \<noteq> Detector_stopped \<and>
   bullets (hunter (shoot env0 hunter0)) = 0"
proof -
  have j1: "jam_roll env_unlucky hunter0 = (False, hunter0, 1)"
    by (simp add: ex_defs jam_roll_def compute_luck_def)
  have j2: "jam_roll env0 hunter_detector = (True, hunter_detector, 1)"
    by (simp add: ex_defs jam_roll_def compute_luck_def)
  have j3: "jam_roll env0 hunter0 = (True, hunter0, 1)"
    by (simp add: ex_defs jam_roll_def compute_luck_def)
  have o2: "outcome (shoot env0 hunter_detector) = Detector_stopped"
    by (simp add: ex_defs run_defs upd_defs)
  have o3: "outcome (shoot env0 hunter0) = No_duck"
    by (simp add: ex_defs run_defs upd_defs)
  have b: "bullets hunter0 = 1" "bullets hunter_detector = 1" by (simp_all add: ex_defs)
  have g1: "active_powerups hunter0 ''dead'' \<le> 0" "active_powerups hunter0 ''wet'' \<le> now env_unlucky"
      "active_powerups hunter0 ''wet'' \<le> now env0"
      "\<not> weapon_confiscated hunter0" "weapon_sabotaged_by hunter0 = None"
      "\<not> weapon_jammed hunter0" "0 < bullets hunter0"
    by (simp_all add: ex_defs)
  have g2: "active_powerups hunter_detector ''dead'' \<le> 0"
      "active_powerups hunter_detector ''wet'' \<le> now env0"
      "\<not> weapon_confiscated hunter_detector" "weapon_sabotaged_by hunter_detector = None"
      "\<not> weapon_jammed hunter_detector" "0 < bullets hunter_detector"
    by (simp_all add: ex_defs)
  have w1: "outcome (shoot env_unlucky hunter0) = Jam_roll_failed \<and>
            bullets (hunter (shoot env_unlucky hunter0)) = bullets hunter0"
    using bullet_accounting [OF g1(1) g1(2) g1(4-7) j1] by blast
  have w2: "bullets (hunter (shoot env0 hunter_detector)) =
              (if outcome (shoot env0 hunter_detector) = Detector_stopped
               then bullets hunter_detector else bullets hunter_detector - 1)"
    using bullet_accounting [OF g2 j2] by blast
  have w3: "bullets (hunter (shoot env0 hunter0)) =
              (if outcome (shoot env0 hunter0) = Detector_stopped
               then bullets hunter0 else bullets hunter0 - 1)"
    using bullet_accounting [OF g1(1) g1(3) g1(4-7) j3] by blast
  show ?thesis using w1 w2 w3 by (simp add: o2 o3 b)
qed

section \<open>Reloading with nothing to reload\<close>

text \<open>
  C8. \<^verbatim>\<open>reload\<close> with no bullet and no magazine left, the weapon neither confiscated nor
  jammed, changes one thing in the row: the counter \<^verbatim>\<open>unneeded_reloads\<close> of
  \<^verbatim>\<open>shooting_stats\<close> goes up by one. \<^verbatim>\<open>bullets\<close> and \<^verbatim>\<open>magazines\<close> stay 0; experience,
  powerups, the weapon flags and every other counter are untouched.
\<close>

theorem reload_no_magazines:
  assumes "bullets h = 0" and "magazines h = 0"
    and "\<not> weapon_confiscated h" and "\<not> weapon_jammed h"
  shows "r_outcome (reload e h) = No_magazines \<and>
         r_returned (reload e h) = Some False \<and>
         r_hunter (reload e h) =
           h\<lparr>shooting_stats := (shooting_stats h)
                (''unneeded_reloads'' := shooting_stats h ''unneeded_reloads'' + 1)\<rparr> \<and>
         r_saved (reload e h) = [Save (r_hunter (reload e h))] \<and>
         bullets (r_hunter (reload e h)) = 0 \<and>
         magazines (r_hunter (reload e h)) = 0 \<and>
         experience (r_hunter (reload e h)) = experience h \<and>
         active_powerups (r_hunter (reload e h)) = active_powerups h \<and>
         weapon_confiscated (r_hunter (reload e h)) = weapon_confiscated h \<and>
         weapon_jammed (r_hunter (reload e h)) = weapon_jammed h \<and>
         weapon_sabotaged_by (r_hunter (reload e h)) = weapon_sabotaged_by h \<and>
         pid (r_hunter (reload e h)) = pid h \<and>
         member (r_hunter (reload e h)) = member h \<and>
         (\<forall>k. k \<noteq> ''unneeded_reloads'' \<longrightarrow>
              shooting_stats (r_hunter (reload e h)) k = shooting_stats h k)"
  using assms by (simp add: reload_def add_stat_def incr_def Let_def)

theorem reload_no_magazines_witness:
  "r_outcome (reload env0 hunter_empty) = No_magazines \<and>
   bullets (r_hunter (reload env0 hunter_empty)) = 0 \<and>
   magazines (r_hunter (reload env0 hunter_empty)) = 0 \<and>
   experience (r_hunter (reload env0 hunter_empty)) = 0 \<and>
   shooting_stats (r_hunter (reload env0 hunter_empty)) ''unneeded_reloads'' = 1 \<and>
   shooting_stats (r_hunter (reload env0 hunter_empty)) ''reloads'' = 0"
  using reload_no_magazines [of hunter_empty env0]
  by (simp add: ex_defs)

section \<open>The detector\<close>

text \<open>
  C7. A shot that takes the path of lines 212 to 229 (its reply is one of the three given
  there) with a \<^verbatim>\<open>detector\<close> counter of 1 and no duck in the channel is stopped by the
  detector: the counter becomes 0, \<^verbatim>\<open>bullets\<close> is what it was before the shot, so is the
  counter \<^verbatim>\<open>bullets_used\<close>, the experience is unchanged, and the row saved last is
  that one.
\<close>

theorem detector_refund:
  assumes "active_powerups h ''detector'' = 1" and "\<not> next_duck e"
    and "outcome (shoot e h) \<in> {Shot_duck, Detector_stopped, No_duck}"
  shows "outcome (shoot e h) = Detector_stopped \<and>
         active_powerups (hunter (shoot e h)) ''detector'' = 0 \<and>
         bullets (hunter (shoot e h)) = bullets h \<and>
         shooting_stats (hunter (shoot e h)) ''bullets_used'' = shooting_stats h ''bullets_used'' \<and>
         experience (hunter (shoot e h)) = experience h \<and>
         last (saved (shoot e h)) = Save (hunter (shoot e h))"
proof -
  have r: "outcome (shoot e h)
     \<in> {Missed_tree, Homing_self_kill, Suicide, Murder, Accidental_kill,
         Shot_duck, Detector_stopped, No_duck}"
    using assms(3) by auto
  show ?thesis
  proof (rule shoot_path [OF r])
  fix h1 n h2
  assume f: "same_but_powerups (spend_bullet h) h2"
    and po: "\<And>k. k \<noteq> ''sand'' \<Longrightarrow> k \<noteq> ''mirror'' \<Longrightarrow> k \<noteq> ''sight'' \<Longrightarrow>
           k \<noteq> ''homing_bullets'' \<Longrightarrow> active_powerups h2 k = active_powerups h k"
    and br: "(\<exists>ms tgt. shoot e h =
              friendly_fire e h2 ms (1 \<le> active_powerups h ''homing_bullets'') tgt (Suc n) \<and>
            (1 \<le> active_powerups h ''homing_bullets'' \<longrightarrow> tgt = Some (author e)) \<and>
            (\<not> 1 \<le> active_powerups h ''homing_bullets'' \<longrightarrow> tgt = target e) \<and>
            (ms \<longleftrightarrow> tgt = None)) \<or>
         (\<not> 1 \<le> active_powerups h ''homing_bullets'' \<and> shoot e h = clean_hit e h2 (Suc n))"
  have d: "active_powerups h2 ''detector'' = active_powerups h ''detector''"
    using po by simp
  have "\<And>ms tgt. shoot e h \<noteq>
      friendly_fire e h2 ms (1 \<le> active_powerups h ''homing_bullets'') tgt (Suc n)"
  proof
    fix ms tgt
    assume "shoot e h =
      friendly_fire e h2 ms (1 \<le> active_powerups h ''homing_bullets'') tgt (Suc n)"
    then show False
      using friendly_fire_outcome
        [of e h2 ms "1 \<le> active_powerups h ''homing_bullets''" tgt "Suc n"] assms(3)
      by auto
  qed
  then have c: "shoot e h = clean_hit e h2 (Suc n)" using br by blast
  have d1: "1 \<le> active_powerups h2 ''detector''" using d assms(1) by simp
  have b: "bullets h2 = bullets h - 1"
    using same_but_powerups_fields(4) [OF f] by (simp add: spend_bullet_def add_stat_def)
  have u: "shooting_stats h2 ''bullets_used'' = shooting_stats h ''bullets_used'' + 1"
    using same_but_powerups_fields(9) [OF f] by (simp add: spend_bullet_def upd_defs)
  have x: "experience h2 = experience h"
    using same_but_powerups_fields(3) [OF f] by (simp add: spend_bullet_def add_stat_def)
  show ?thesis
    unfolding c using clean_hit_detector [OF d1 assms(2), of "Suc n"] d assms(1) b u x by simp
  qed
qed

theorem detector_refund_witness:
  "outcome (shoot env0 hunter_detector) = Detector_stopped \<and>
   active_powerups (hunter (shoot env0 hunter_detector)) ''detector'' = 0 \<and>
   bullets (hunter (shoot env0 hunter_detector)) = bullets hunter_detector \<and>
   shooting_stats (hunter (shoot env0 hunter_detector)) ''bullets_used'' =
     shooting_stats hunter_detector ''bullets_used'' \<and>
   experience (hunter (shoot env0 hunter_detector)) = experience hunter_detector"
proof -
  have d: "active_powerups hunter_detector ''detector'' = 1" by (simp add: ex_defs)
  have n: "\<not> next_duck env0" by (simp add: ex_defs)
  have o: "outcome (shoot env0 hunter_detector) \<in> {Shot_duck, Detector_stopped, No_duck}"
    by (simp add: ex_defs run_defs upd_defs)
  show ?thesis using detector_refund [OF d n o] by blast
qed

section \<open>A confirmed death\<close>

text \<open>
  What the death branch does to the objects in memory: whenever \<^verbatim>\<open>bang\<close> ends with one
  of the four death replies, the shooter has the weapon confiscated and has lost 15
  experience for the death (17 with the 2 of a miss or of a homing bullet), and the object
  \<^verbatim>\<open>db_target\<close> has \<^verbatim>\<open>dead\<close> and \<^verbatim>\<open>got_killed\<close> one higher than before: either it is
  \<^verbatim>\<open>db_hunter\<close> itself, or it is the row loaded for the named target or by
  \<^verbatim>\<open>get_random_player\<close>.
\<close>

lemma death_in_memory:
  fixes e r
  defines "h \<equiv> get_player e (author e)"
  assumes "bang e = Attempt r"
    and "outcome r \<in> {Homing_self_kill, Suicide, Murder, Accidental_kill}"
  shows "weapon_confiscated (hunter r) \<and>
         experience (hunter r) =
           experience h - (if outcome r = Suicide \<or> outcome r = Murder then 15 else 17) \<and>
         shooting_stats (hunter r) ''killed'' = shooting_stats h ''killed'' + 1 \<and>
         ((victim r = Some Is_db_hunter \<and>
           active_powerups (hunter r) ''dead'' = active_powerups h ''dead'' + 1 \<and>
           shooting_stats (hunter r) ''got_killed'' = shooting_stats h ''got_killed'' + 1) \<or>
          (\<exists>v v0. victim r = Some (Loaded v) \<and>
             v0 = (case target e of None \<Rightarrow> get_random_player e | Some m \<Rightarrow> get_player e m) \<and>
             v = add_powerup ''dead'' 1 (add_stat ''got_killed'' 1 v0) \<and>
             active_powerups v ''dead'' = active_powerups v0 ''dead'' + 1 \<and>
             shooting_stats v ''got_killed'' = shooting_stats v0 ''got_killed'' + 1 \<and>
             active_powerups (hunter r) ''dead'' = active_powerups h ''dead''))"
proof -
  have r: "r = shoot e h" using bang_attempt(2) [OF assms(2)] by (simp add: h_def)
  have res: "outcome (shoot e h)
     \<in> {Missed_tree, Homing_self_kill, Suicide, Murder, Accidental_kill,
         Shot_duck, Detector_stopped, No_duck}"
    using assms(3) unfolding r by auto
  show ?thesis
  proof (rule shoot_path [OF res])
    fix h1 n h2
    assume f: "same_but_powerups (spend_bullet h) h2"
      and po: "\<And>k. k \<noteq> ''sand'' \<Longrightarrow> k \<noteq> ''mirror'' \<Longrightarrow> k \<noteq> ''sight'' \<Longrightarrow>
           k \<noteq> ''homing_bullets'' \<Longrightarrow> active_powerups h2 k = active_powerups h k"
      and br: "(\<exists>ms tgt. shoot e h =
              friendly_fire e h2 ms (1 \<le> active_powerups h ''homing_bullets'') tgt (Suc n) \<and>
            (1 \<le> active_powerups h ''homing_bullets'' \<longrightarrow> tgt = Some (author e)) \<and>
            (\<not> 1 \<le> active_powerups h ''homing_bullets'' \<longrightarrow> tgt = target e) \<and>
            (ms \<longleftrightarrow> tgt = None)) \<or>
         (\<not> 1 \<le> active_powerups h ''homing_bullets'' \<and> shoot e h = clean_hit e h2 (Suc n))"
    define hm where "hm = (1 \<le> active_powerups h ''homing_bullets'')"
    have "shoot e h \<noteq> clean_hit e h2 (Suc n)"
      using clean_hit_outcome [of e h2 "Suc n"] assms(3) unfolding r by auto
    then obtain ms tgt where eq: "shoot e h = friendly_fire e h2 ms hm tgt (Suc n)"
      and t1: "hm \<longrightarrow> tgt = Some (author e)" and t2: "\<not> hm \<longrightarrow> tgt = target e"
      and t3: "ms \<longleftrightarrow> tgt = None"
      using br unfolding hm_def by blast
    have nm: "outcome (friendly_fire e h2 ms hm tgt (Suc n)) \<noteq> Missed_tree"
      using assms(3) unfolding r eq by auto
    note D = friendly_fire_death [of e h2 ms hm tgt "Suc n", OF nm t3]
    have x: "experience h2 = experience h" and p: "pid h2 = pid h"
      and k: "shooting_stats h2 ''killed'' = shooting_stats h ''killed''"
      and g: "shooting_stats h2 ''got_killed'' = shooting_stats h ''got_killed''"
      using same_but_powerups_fields [OF f] by (simp_all add: spend_bullet_fields)
    have d: "active_powerups h2 ''dead'' = active_powerups h ''dead''" using po by simp
    have oc: "outcome r = kill_message e hm tgt" using D(4) by (simp add: r eq)
    have c1: "weapon_confiscated (hunter r)" using D(1) by (simp add: r eq)
    have ex: "experience (hunter r) = experience h - 15 - (if ms \<or> hm then 2 else 0)"
      using D(2) by (simp add: r eq x)
    have c2: "experience (hunter r) =
           experience h - (if outcome r = Suicide \<or> outcome r = Murder then 15 else 17)"
      using t1 t3 unfolding oc ex
      by (cases tgt) (auto simp: kill_message_def)
    have c3: "shooting_stats (hunter r) ''killed'' = shooting_stats h ''killed'' + 1"
      using D(3) by (simp add: r eq k)
    have c4: "(victim r = Some Is_db_hunter \<and>
           active_powerups (hunter r) ''dead'' = active_powerups h ''dead'' + 1 \<and>
           shooting_stats (hunter r) ''got_killed'' = shooting_stats h ''got_killed'' + 1) \<or>
          (\<exists>v v0. victim r = Some (Loaded v) \<and>
             v0 = (case target e of None \<Rightarrow> get_random_player e | Some m \<Rightarrow> get_player e m) \<and>
             v = add_powerup ''dead'' 1 (add_stat ''got_killed'' 1 v0) \<and>
             active_powerups v ''dead'' = active_powerups v0 ''dead'' + 1 \<and>
             shooting_stats v ''got_killed'' = shooting_stats v0 ''got_killed'' + 1 \<and>
             active_powerups (hunter r) ''dead'' = active_powerups h ''dead'')"
    proof (cases tgt)
      case None
      then have nh: "\<not> hm" using t1 by auto
      then have te: "target e = None" using t2 None by simp
      show ?thesis using D(7) [OF None] by (simp add: r eq te d upd_defs)
    next
      case (Some m)
      show ?thesis
      proof (cases "pid (get_player e m) = pid h2")
        case True
        show ?thesis using D(8) [OF Some True] by (simp add: r eq d g)
      next
        case False
        have "\<not> hm"
        proof
          assume hm
          then have "m = author e" using t1 Some by simp
          then show False using False p by (simp add: h_def)
        qed
        then have te: "target e = Some m" using t2 Some by simp
        show ?thesis using D(9) [OF Some False] by (simp add: r eq te d upd_defs)
      qed
    qed
    show ?thesis using c1 c2 c3 c4 by blast
  qed
qed

text \<open>
  What is written back when nobody was named and \<^verbatim>\<open>get_random_player\<close> returns a row
  with the shooter's own id: the victim is an object of its own (line 161 has no
  counterpart of lines 165 and 166), the ids agree at line 173, and only \<^verbatim>\<open>db_hunter\<close>
  is saved, whose \<^verbatim>\<open>dead\<close> and \<^verbatim>\<open>got_killed\<close> are unchanged.
\<close>

lemma stray_bullet_on_shooter:
  fixes e r
  defines "h \<equiv> get_player e (author e)"
  assumes "bang e = Attempt r" and "outcome r = Accidental_kill"
    and "pid (get_random_player e) = pid h"
  shows "saved r = [Save (hunter r)] \<and>
         active_powerups (hunter r) ''dead'' = active_powerups h ''dead'' \<and>
         shooting_stats (hunter r) ''got_killed'' = shooting_stats h ''got_killed''"
proof -
  have r: "r = shoot e h" using bang_attempt(2) [OF assms(2)] by (simp add: h_def)
  have res: "outcome (shoot e h)
     \<in> {Missed_tree, Homing_self_kill, Suicide, Murder, Accidental_kill,
         Shot_duck, Detector_stopped, No_duck}"
    using assms(3) unfolding r by auto
  show ?thesis
  proof (rule shoot_path [OF res])
    fix h1 n h2
    assume f: "same_but_powerups (spend_bullet h) h2"
      and po: "\<And>k. k \<noteq> ''sand'' \<Longrightarrow> k \<noteq> ''mirror'' \<Longrightarrow> k \<noteq> ''sight'' \<Longrightarrow>
           k \<noteq> ''homing_bullets'' \<Longrightarrow> active_powerups h2 k = active_powerups h k"
      and br: "(\<exists>ms tgt. shoot e h =
              friendly_fire e h2 ms (1 \<le> active_powerups h ''homing_bullets'') tgt (Suc n) \<and>
            (1 \<le> active_powerups h ''homing_bullets'' \<longrightarrow> tgt = Some (author e)) \<and>
            (\<not> 1 \<le> active_powerups h ''homing_bullets'' \<longrightarrow> tgt = target e) \<and>
            (ms \<longleftrightarrow> tgt = None)) \<or>
         (\<not> 1 \<le> active_powerups h ''homing_bullets'' \<and> shoot e h = clean_hit e h2 (Suc n))"
    define hm where "hm = (1 \<le> active_powerups h ''homing_bullets'')"
    have "shoot e h \<noteq> clean_hit e h2 (Suc n)"
      using clean_hit_outcome [of e h2 "Suc n"] assms(3) unfolding r by auto
    then obtain ms tgt where eq: "shoot e h = friendly_fire e h2 ms hm tgt (Suc n)"
      and t3: "ms \<longleftrightarrow> tgt = None"
      using br unfolding hm_def by blast
    have nm: "outcome (friendly_fire e h2 ms hm tgt (Suc n)) \<noteq> Missed_tree"
      using assms(3) unfolding r eq by auto
    note D = friendly_fire_death [of e h2 ms hm tgt "Suc n", OF nm t3]
    have p: "pid h2 = pid h"
      and g: "shooting_stats h2 ''got_killed'' = shooting_stats h ''got_killed''"
      using same_but_powerups_fields [OF f] by (simp_all add: spend_bullet_fields)
    have d: "active_powerups h2 ''dead'' = active_powerups h ''dead''" using po by simp
    have "kill_message e hm tgt = Accidental_kill"
      using D(4) assms(3) by (simp add: r eq)
    then have tn: "tgt = None"
      by (cases tgt) (auto simp: kill_message_def split: if_splits)
    show ?thesis using D(7) [OF tn] assms(4) by (simp add: r eq p g d)
  qed
qed

text \<open>
  C3. On a confirmed death the victim's \<^verbatim>\<open>dead\<close> counter and \<^verbatim>\<open>got_killed\<close> statistic
  must each go up by one. The code misses this for a stray bullet that hits the shooter:
  at the input below nobody is named, the accuracy roll fails, the kill-on-miss roll
  succeeds and \<^verbatim>\<open>get_random_player\<close> returns the shooter's own row. The reply is the
  accidental kill and the weapon is confiscated, the increments are made on a separate
  copy of the row, and the one row saved, \<^verbatim>\<open>db_hunter\<close>, has \<^verbatim>\<open>dead\<close> and
  \<^verbatim>\<open>got_killed\<close> as before the shot. When the shooter names themself instead, lines 165
  and 166 make the copy the object \<^verbatim>\<open>db_hunter\<close>, and the saved row has both one
  higher.
\<close>

theorem stray_bullet_lost_death:
  "bang env_stray_self = Attempt (shoot env_stray_self hunter0) \<and>
   target env_stray_self = None \<and>
   pid (get_random_player env_stray_self) = pid hunter0 \<and>
   outcome (shoot env_stray_self hunter0) = Accidental_kill \<and>
   weapon_confiscated (hunter (shoot env_stray_self hunter0)) \<and>
   victim (shoot env_stray_self hunter0) =
     Some (Loaded (add_powerup ''dead'' 1 (add_stat ''got_killed'' 1 hunter0))) \<and>
   saved (shoot env_stray_self hunter0) = [Save (hunter (shoot env_stray_self hunter0))] \<and>
   active_powerups (hunter (shoot env_stray_self hunter0)) ''dead'' =
     active_powerups hunter0 ''dead'' \<and>
   shooting_stats (hunter (shoot env_stray_self hunter0)) ''got_killed'' =
     shooting_stats hunter0 ''got_killed'' \<and>
   outcome (shoot env_self hunter0) = Suicide \<and>
   saved (shoot env_self hunter0) = [Save (hunter (shoot env_self hunter0))] \<and>
   active_powerups (hunter (shoot env_self hunter0)) ''dead'' =
     active_powerups hunter0 ''dead'' + 1 \<and>
   shooting_stats (hunter (shoot env_self hunter0)) ''got_killed'' =
     shooting_stats hunter0 ''got_killed'' + 1"
proof (intro conjI)
  show "bang env_stray_self = Attempt (shoot env_stray_self hunter0)"
    by (simp add: bang_def ex_defs)
  show "target env_stray_self = None" by (simp add: ex_defs)
  show "pid (get_random_player env_stray_self) = pid hunter0" by (simp add: ex_defs)
  show "outcome (shoot env_stray_self hunter0) = Accidental_kill"
    by (simp add: ex_defs run_defs upd_defs)
  show "weapon_confiscated (hunter (shoot env_stray_self hunter0))"
    by (simp add: ex_defs run_defs upd_defs)
  show "victim (shoot env_stray_self hunter0) =
     Some (Loaded (add_powerup ''dead'' 1 (add_stat ''got_killed'' 1 hunter0)))"
    by (simp add: ex_defs run_defs upd_defs)
  show "saved (shoot env_stray_self hunter0) = [Save (hunter (shoot env_stray_self hunter0))]"
    by (simp add: ex_defs run_defs upd_defs)
  show "active_powerups (hunter (shoot env_stray_self hunter0)) ''dead'' =
     active_powerups hunter0 ''dead''"
    by (simp add: ex_defs run_defs upd_defs)
  show "shooting_stats (hunter (shoot env_stray_self hunter0)) ''got_killed'' =
     shooting_stats hunter0 ''got_killed''"
    by (simp add: ex_defs run_defs upd_defs)
  show "outcome (shoot env_self hunter0) = Suicide"
    by (simp add: ex_defs run_defs upd_defs)
  show "saved (shoot env_self hunter0) = [Save (hunter (shoot env_self hunter0))]"
    by (simp add: ex_defs run_defs upd_defs)
  show "active_powerups (hunter (shoot env_self hunter0)) ''dead'' =
     active_powerups hunter0 ''dead'' + 1"
    by (simp add: ex_defs run_defs upd_defs)
  show "shooting_stats (hunter (shoot env_self hunter0)) ''got_killed'' =
     shooting_stats hunter0 ''got_killed'' + 1"
    by (simp add: ex_defs run_defs upd_defs)
qed

section \<open>A named target\<close>

text \<open>
  Three runs with a named target. The hunter names themself and the accuracy roll
  succeeds: the reply is the suicide and the counter \<^verbatim>\<open>murders\<close> of the shooter has
  gone up by one (line 168 stands after the inner \<^verbatim>\<open>if\<close>, not in an \<^verbatim>\<open>else\<close> of it).
  The hunter names the other player with a homing bullet loaded: the victim is the
  shooter, not the player named. The hunter names the other player and the accuracy roll
  fails: nobody dies, the shot goes on to the duck.
\<close>

theorem named_target_counterexample:
  "bang env_self = Attempt (shoot env_self hunter0) \<and>
   target env_self = Some (author env_self) \<and>
   outcome (shoot env_self hunter0) = Suicide \<and>
   victim (shoot env_self hunter0) = Some Is_db_hunter \<and>
   shooting_stats (hunter (shoot env_self hunter0)) ''murders'' =
     shooting_stats hunter0 ''murders'' + 1 \<and>
   bang env_homing_other = Attempt (shoot env_homing_other hunter_homing) \<and>
   target env_homing_other = Some 20 \<and>
   author env_homing_other = 10 \<and>
   outcome (shoot env_homing_other hunter_homing) = Homing_self_kill \<and>
   victim (shoot env_homing_other hunter_homing) = Some Is_db_hunter \<and>
   bang env_other_missed = Attempt (shoot env_other_missed hunter0) \<and>
   target env_other_missed = Some 20 \<and>
   outcome (shoot env_other_missed hunter0) = No_duck \<and>
   victim (shoot env_other_missed hunter0) = None"
proof (intro conjI)
  show "bang env_self = Attempt (shoot env_self hunter0)"
    by (simp add: bang_def ex_defs)
  show "target env_self = Some (author env_self)" by (simp add: ex_defs)
  show "outcome (shoot env_self hunter0) = Suicide"
    by (simp add: ex_defs run_defs upd_defs)
  show "victim (shoot env_self hunter0) = Some Is_db_hunter"
    by (simp add: ex_defs run_defs upd_defs)
  show "shooting_stats (hunter (shoot env_self hunter0)) ''murders'' =
     shooting_stats hunter0 ''murders'' + 1"
    by (simp add: ex_defs run_defs upd_defs)
  show "bang env_homing_other = Attempt (shoot env_homing_other hunter_homing)"
    by (simp add: bang_def ex_defs)
  show "target env_homing_other = Some 20" by (simp add: ex_defs)
  show "author env_homing_other = 10" by (simp add: ex_defs)
  show "outcome (shoot env_homing_other hunter_homing) = Homing_self_kill"
    by (simp add: ex_defs run_defs upd_defs)
  show "victim (shoot env_homing_other hunter_homing) = Some Is_db_hunter"
    by (simp add: ex_defs run_defs upd_defs)
  show "bang env_other_missed = Attempt (shoot env_other_missed hunter0)"
    by (simp add: bang_def ex_defs)
  show "target env_other_missed = Some 20" by (simp add: ex_defs)
  show "outcome (shoot env_other_missed hunter0) = No_duck"
    by (simp add: ex_defs run_defs upd_defs)
  show "victim (shoot env_other_missed hunter0) = None"
    by (simp add: ex_defs run_defs upd_defs)
qed

text \<open>
  C4, amended. For a shot that names a target and passes the blocking checks and the jam
  roll: with a homing bullet loaded the victim is the shooter, whoever was named; without
  one, if the accuracy roll succeeds, the named target is the victim (its row gets the
  death and is saved; naming oneself gives the suicide reply and the victim is
  \<^verbatim>\<open>db_hunter\<close> itself); if the roll fails nobody dies and no murder is counted. In
  both kinds of death the shooter's counter \<^verbatim>\<open>murders\<close> goes up by one, the suicide
  included.
\<close>

theorem named_target_victim:
  fixes e r m h1 n
  defines "h \<equiv> get_player e (author e)"
  defines "hm \<equiv> 1 \<le> active_powerups h ''homing_bullets''"
  defines "hit \<equiv> compute_luck
     (fst (aim (get_level_info e (experience h)) (spend_bullet h1))) (randint e n)"
  defines "v \<equiv> add_powerup ''dead'' 1 (add_stat ''got_killed'' 1 (get_player e m))"
  assumes "bang e = Attempt r" and "target e = Some m"
    and "active_powerups h ''dead'' \<le> 0" and "active_powerups h ''wet'' \<le> now e"
    and "\<not> weapon_confiscated h" and "weapon_sabotaged_by h = None"
    and "\<not> weapon_jammed h" and "0 < bullets h"
    and "jam_roll e h = (True, h1, n)"
  shows "(hm \<longrightarrow>
            outcome r = Homing_self_kill \<and>
            victim r = Some Is_db_hunter \<and>
            saved r = [Save (hunter r)] \<and>
            active_powerups (hunter r) ''dead'' = active_powerups h ''dead'' + 1 \<and>
            shooting_stats (hunter r) ''got_killed'' = shooting_stats h ''got_killed'' + 1 \<and>
            shooting_stats (hunter r) ''murders'' = shooting_stats h ''murders'' + 1) \<and>
         (\<not> hm \<and> hit \<longrightarrow>
            outcome r = (if m = author e then Suicide else Murder) \<and>
            (m = author e \<longrightarrow> pid (get_player e m) = pid h) \<and>
            (pid (get_player e m) = pid h \<longrightarrow>
               victim r = Some Is_db_hunter \<and>
               saved r = [Save (hunter r)] \<and>
               active_powerups (hunter r) ''dead'' = active_powerups h ''dead'' + 1 \<and>
               shooting_stats (hunter r) ''got_killed'' =
                 shooting_stats h ''got_killed'' + 1) \<and>
            (pid (get_player e m) \<noteq> pid h \<longrightarrow>
               victim r = Some (Loaded v) \<and>
               saved r = [Gather v (hunter r)] \<and>
               active_powerups (hunter r) ''dead'' = active_powerups h ''dead'') \<and>
            shooting_stats (hunter r) ''murders'' = shooting_stats h ''murders'' + 1) \<and>
         (\<not> hm \<and> \<not> hit \<longrightarrow>
            outcome r \<in> {Shot_duck, Detector_stopped, No_duck} \<and>
            victim r = None \<and>
            shooting_stats (hunter r) ''murders'' = shooting_stats h ''murders'')"
proof -
  define li where "li = get_level_info e (experience h)"
  have r: "r = shoot e h" using bang_attempt(2) [OF assms(5)] by (simp add: h_def)
  obtain a hx where a: "aim li (spend_bullet h1) = (a, hx)"
    by (cases "aim li (spend_bullet h1)")
  have hit: "hit = compute_luck a (randint e n)"
    unfolding hit_def li_def [symmetric] a by simp
  have s: "shoot e h = missing e li (spend_bullet h1) n"
    using shoot_open [OF assms(7-12)] by (simp add: jamming_def assms(13) li_def)
  note M = missing_named [OF a assms(6), of n]
  define h2 where "h2 = (if hm then add_powerup ''homing_bullets'' (- 1) hx else hx)"
  note F = path_frame [OF assms(13) a h2_def]
  have hx: "(1 \<le> active_powerups hx ''homing_bullets'') = hm" by (simp add: F(2) hm_def)
  have p: "pid h2 = pid h"
    and mu: "shooting_stats h2 ''murders'' = shooting_stats h ''murders''"
    and g: "shooting_stats h2 ''got_killed'' = shooting_stats h ''got_killed''"
    using same_but_powerups_fields [OF F(1)] by (simp_all add: spend_bullet_fields)
  note d = F(3)
  have c1: "hm \<longrightarrow>
            outcome r = Homing_self_kill \<and>
            victim r = Some Is_db_hunter \<and>
            saved r = [Save (hunter r)] \<and>
            active_powerups (hunter r) ''dead'' = active_powerups h ''dead'' + 1 \<and>
            shooting_stats (hunter r) ''got_killed'' = shooting_stats h ''got_killed'' + 1 \<and>
            shooting_stats (hunter r) ''murders'' = shooting_stats h ''murders'' + 1"
  proof
    assume hm: hm
    have eq: "r = friendly_fire e h2 False True (Some (author e)) (Suc n)"
      using hm by (simp add: r s M hx h2_def)
    have oc: "outcome r = Homing_self_kill"
      by (simp add: eq friendly_fire_named_outcome kill_message_def)
    have nm: "outcome (friendly_fire e h2 False True (Some (author e)) (Suc n)) \<noteq> Missed_tree"
      using oc by (simp add: eq)
    have t3: "False \<longleftrightarrow> Some (author e) = None" by simp
    have pe: "pid (get_player e (author e)) = pid h2" using p by (simp add: h_def)
    note K = friendly_fire_death(8)
      [of e h2 False True "Some (author e)" "Suc n", OF nm t3 refl pe]
    show "outcome r = Homing_self_kill \<and>
            victim r = Some Is_db_hunter \<and>
            saved r = [Save (hunter r)] \<and>
            active_powerups (hunter r) ''dead'' = active_powerups h ''dead'' + 1 \<and>
            shooting_stats (hunter r) ''got_killed'' = shooting_stats h ''got_killed'' + 1 \<and>
            shooting_stats (hunter r) ''murders'' = shooting_stats h ''murders'' + 1"
      using K oc by (simp add: eq [symmetric] d g mu)
  qed
  have c2: "\<not> hm \<and> hit \<longrightarrow>
            outcome r = (if m = author e then Suicide else Murder) \<and>
            (m = author e \<longrightarrow> pid (get_player e m) = pid h) \<and>
            (pid (get_player e m) = pid h \<longrightarrow>
               victim r = Some Is_db_hunter \<and>
               saved r = [Save (hunter r)] \<and>
               active_powerups (hunter r) ''dead'' = active_powerups h ''dead'' + 1 \<and>
               shooting_stats (hunter r) ''got_killed'' =
                 shooting_stats h ''got_killed'' + 1) \<and>
            (pid (get_player e m) \<noteq> pid h \<longrightarrow>
               victim r = Some (Loaded v) \<and>
               saved r = [Gather v (hunter r)] \<and>
               active_powerups (hunter r) ''dead'' = active_powerups h ''dead'') \<and>
            shooting_stats (hunter r) ''murders'' = shooting_stats h ''murders'' + 1"
  proof
    assume "\<not> hm \<and> hit"
    then have nh: "\<not> hm" and ht: "compute_luck a (randint e n)" using hit by simp_all
    have eq: "r = friendly_fire e h2 False False (Some m) (Suc n)"
      using nh ht by (simp add: r s M hx h2_def)
    have oc: "outcome r = (if m = author e then Suicide else Murder)"
      by (simp add: eq friendly_fire_named_outcome kill_message_def)
    have nm: "outcome (friendly_fire e h2 False False (Some m) (Suc n)) \<noteq> Missed_tree"
      using oc by (simp add: eq split: if_splits)
    have t3: "False \<longleftrightarrow> Some m = None" by simp
    note D = friendly_fire_death [of e h2 False False "Some m" "Suc n", OF nm t3]
    have self: "m = author e \<longrightarrow> pid (get_player e m) = pid h" by (simp add: h_def)
    have same: "pid (get_player e m) = pid h \<longrightarrow>
               victim r = Some Is_db_hunter \<and>
               saved r = [Save (hunter r)] \<and>
               active_powerups (hunter r) ''dead'' = active_powerups h ''dead'' + 1 \<and>
               shooting_stats (hunter r) ''got_killed'' =
                 shooting_stats h ''got_killed'' + 1"
    proof
      assume "pid (get_player e m) = pid h"
      then have pe: "pid (get_player e m) = pid h2" using p by simp
      from D(8) [OF refl pe]
      show "victim r = Some Is_db_hunter \<and>
               saved r = [Save (hunter r)] \<and>
               active_powerups (hunter r) ''dead'' = active_powerups h ''dead'' + 1 \<and>
               shooting_stats (hunter r) ''got_killed'' =
                 shooting_stats h ''got_killed'' + 1"
        by (simp add: eq [symmetric] d g)
    qed
    have other: "pid (get_player e m) \<noteq> pid h \<longrightarrow>
               victim r = Some (Loaded v) \<and>
               saved r = [Gather v (hunter r)] \<and>
               active_powerups (hunter r) ''dead'' = active_powerups h ''dead''"
    proof
      assume "pid (get_player e m) \<noteq> pid h"
      then have pe: "pid (get_player e m) \<noteq> pid h2" using p by simp
      from D(9) [OF refl pe]
      show "victim r = Some (Loaded v) \<and>
               saved r = [Gather v (hunter r)] \<and>
               active_powerups (hunter r) ''dead'' = active_powerups h ''dead''"
        by (simp add: eq [symmetric] d v_def)
    qed
    have mur: "shooting_stats (hunter r) ''murders'' = shooting_stats h ''murders'' + 1"
    proof (cases "pid (get_player e m) = pid h2")
      case True
      from D(8) [OF refl True] show ?thesis by (simp add: eq [symmetric] mu)
    next
      case False
      from D(9) [OF refl False] show ?thesis by (simp add: eq [symmetric] mu)
    qed
    show "outcome r = (if m = author e then Suicide else Murder) \<and>
            (m = author e \<longrightarrow> pid (get_player e m) = pid h) \<and>
            (pid (get_player e m) = pid h \<longrightarrow>
               victim r = Some Is_db_hunter \<and>
               saved r = [Save (hunter r)] \<and>
               active_powerups (hunter r) ''dead'' = active_powerups h ''dead'' + 1 \<and>
               shooting_stats (hunter r) ''got_killed'' =
                 shooting_stats h ''got_killed'' + 1) \<and>
            (pid (get_player e m) \<noteq> pid h \<longrightarrow>
               victim r = Some (Loaded v) \<and>
               saved r = [Gather v (hunter r)] \<and>
               active_powerups (hunter r) ''dead'' = active_powerups h ''dead'') \<and>
            shooting_stats (hunter r) ''murders'' = shooting_stats h ''murders'' + 1"
      using oc self same other mur by (intro conjI)
  qed
  have c3: "\<not> hm \<and> \<not> hit \<longrightarrow>
            outcome r \<in> {Shot_duck, Detector_stopped, No_duck} \<and>
            victim r = None \<and>
            shooting_stats (hunter r) ''murders'' = shooting_stats h ''murders''"
  proof
    assume "\<not> hm \<and> \<not> hit"
    then have nh: "\<not> hm" and ht: "\<not> compute_luck a (randint e n)" using hit by simp_all
    have eq: "r = clean_hit e h2 (Suc n)"
      using nh ht by (simp add: r s M hx h2_def)
    show "outcome r \<in> {Shot_duck, Detector_stopped, No_duck} \<and>
            victim r = None \<and>
            shooting_stats (hunter r) ''murders'' = shooting_stats h ''murders''"
      unfolding eq using clean_hit_outcome [of e h2 "Suc n"]
      by (simp add: clean_hit_frame mu)
  qed
  show ?thesis using c1 c2 c3 by (intro conjI)
qed

theorem named_target_victim_witness:
  "outcome (shoot env_self hunter0) = Suicide \<and>
   victim (shoot env_self hunter0) = Some Is_db_hunter \<and>
   saved (shoot env_self hunter0) = [Save (hunter (shoot env_self hunter0))] \<and>
   shooting_stats (hunter (shoot env_self hunter0)) ''murders'' =
     shooting_stats hunter0 ''murders'' + 1 \<and>
   outcome (shoot env_other hunter0) = Murder \<and>
   victim (shoot env_other hunter0) =
     Some (Loaded (add_powerup ''dead'' 1 (add_stat ''got_killed'' 1 bystander))) \<and>
   saved (shoot env_other hunter0) =
     [Gather (add_powerup ''dead'' 1 (add_stat ''got_killed'' 1 bystander))
        (hunter (shoot env_other hunter0))] \<and>
   shooting_stats (hunter (shoot env_other hunter0)) ''murders'' =
     shooting_stats hunter0 ''murders'' + 1 \<and>
   outcome (shoot env_homing_other hunter_homing) = Homing_self_kill \<and>
   victim (shoot env_homing_other hunter_homing) = Some Is_db_hunter \<and>
   shooting_stats (hunter (shoot env_homing_other hunter_homing)) ''murders'' =
     shooting_stats hunter_homing ''murders'' + 1 \<and>
   victim (shoot env_other_missed hunter0) = None \<and>
   shooting_stats (hunter (shoot env_other_missed hunter0)) ''murders'' =
     shooting_stats hunter0 ''murders''"
proof -
  have gp: "get_player env_self (author env_self) = hunter0"
    "get_player env_other (author env_other) = hunter0"
    "get_player env_homing_other (author env_homing_other) = hunter_homing"
    "get_player env_other_missed (author env_other_missed) = hunter0"
    by (simp_all add: ex_defs)
  have b: "bang env_self = Attempt (shoot env_self hunter0)"
    "bang env_other = Attempt (shoot env_other hunter0)"
    "bang env_homing_other = Attempt (shoot env_homing_other hunter_homing)"
    "bang env_other_missed = Attempt (shoot env_other_missed hunter0)"
    by (simp_all add: bang_def ex_defs)
  have t: "target env_self = Some 10" "target env_other = Some 20"
    "target env_homing_other = Some 20" "target env_other_missed = Some 20"
    by (simp_all add: ex_defs)
  have au: "author env_self = 10" "author env_other = 10" by (simp_all add: ex_defs)
  have g0: "active_powerups hunter0 ''dead'' \<le> 0"
    "\<not> weapon_confiscated hunter0" "weapon_sabotaged_by hunter0 = None"
    "\<not> weapon_jammed hunter0" "0 < bullets hunter0"
    by (simp_all add: ex_defs)
  have gh: "active_powerups hunter_homing ''dead'' \<le> 0"
    "\<not> weapon_confiscated hunter_homing" "weapon_sabotaged_by hunter_homing = None"
    "\<not> weapon_jammed hunter_homing" "0 < bullets hunter_homing"
    by (simp_all add: ex_defs)
  have w: "active_powerups hunter0 ''wet'' \<le> now env_self"
    "active_powerups hunter0 ''wet'' \<le> now env_other"
    "active_powerups hunter_homing ''wet'' \<le> now env_homing_other"
    "active_powerups hunter0 ''wet'' \<le> now env_other_missed"
    by (simp_all add: ex_defs)
  have j: "jam_roll env_self hunter0 = (True, hunter0, 1)"
    "jam_roll env_other hunter0 = (True, hunter0, 1)"
    "jam_roll env_homing_other hunter_homing = (True, hunter_homing, 1)"
    "jam_roll env_other_missed hunter0 = (True, hunter0, 1)"
    by (simp_all add: ex_defs jam_roll_def compute_luck_def)
  have hm: "\<not> 1 \<le> active_powerups hunter0 ''homing_bullets''"
    "1 \<le> active_powerups hunter_homing ''homing_bullets''"
    by (simp_all add: ex_defs)
  have hit: "compute_luck
       (fst (aim (get_level_info env_self (experience hunter0)) (spend_bullet hunter0)))
       (randint env_self 1)"
    "compute_luck
       (fst (aim (get_level_info env_other (experience hunter0)) (spend_bullet hunter0)))
       (randint env_other 1)"
    "\<not> compute_luck
       (fst (aim (get_level_info env_other_missed (experience hunter0)) (spend_bullet hunter0)))
       (randint env_other_missed 1)"
    by (simp_all add: ex_defs aim_def spend_bullet_def upd_defs compute_luck_def Let_def)
  have p: "pid (get_player env_self 10) = pid hunter0"
    "pid (get_player env_other 20) \<noteq> pid hunter0"
    "get_player env_other 20 = bystander"
    by (simp_all add: ex_defs)
  note T1 = named_target_victim
    [of env_self "shoot env_self hunter0" 10 hunter0 1, unfolded gp,
     OF b(1) t(1) g0(1) w(1) g0(2-5) j(1)]
  note T2 = named_target_victim
    [of env_other "shoot env_other hunter0" 20 hunter0 1, unfolded gp,
     OF b(2) t(2) g0(1) w(2) g0(2-5) j(2)]
  note T3 = named_target_victim
    [of env_homing_other "shoot env_homing_other hunter_homing" 20 hunter_homing 1,
     unfolded gp, OF b(3) t(3) gh(1) w(3) gh(2-5) j(3)]
  note T4 = named_target_victim
    [of env_other_missed "shoot env_other_missed hunter0" 20 hunter0 1, unfolded gp,
     OF b(4) t(4) g0(1) w(4) g0(2-5) j(4)]
  have c1: "outcome (shoot env_self hunter0) = Suicide \<and>
   victim (shoot env_self hunter0) = Some Is_db_hunter \<and>
   saved (shoot env_self hunter0) = [Save (hunter (shoot env_self hunter0))] \<and>
   shooting_stats (hunter (shoot env_self hunter0)) ''murders'' =
     shooting_stats hunter0 ''murders'' + 1"
    using T1 hm(1) hit(1) p(1) au(1) by simp
  have c2: "outcome (shoot env_other hunter0) = Murder \<and>
   victim (shoot env_other hunter0) =
     Some (Loaded (add_powerup ''dead'' 1 (add_stat ''got_killed'' 1 bystander))) \<and>
   saved (shoot env_other hunter0) =
     [Gather (add_powerup ''dead'' 1 (add_stat ''got_killed'' 1 bystander))
        (hunter (shoot env_other hunter0))] \<and>
   shooting_stats (hunter (shoot env_other hunter0)) ''murders'' =
     shooting_stats hunter0 ''murders'' + 1"
    using T2 hm(1) hit(2) p(2) au(2) by (simp add: p(3))
  have c3: "outcome (shoot env_homing_other hunter_homing) = Homing_self_kill \<and>
   victim (shoot env_homing_other hunter_homing) = Some Is_db_hunter \<and>
   shooting_stats (hunter (shoot env_homing_other hunter_homing)) ''murders'' =
     shooting_stats hunter_homing ''murders'' + 1"
    using T3 hm(2) by simp
  have c4: "victim (shoot env_other_missed hunter0) = None \<and>
   shooting_stats (hunter (shoot env_other_missed hunter0)) ''murders'' =
     shooting_stats hunter0 ''murders''"
    using T4 hm(1) hit(3) by simp
  show ?thesis using c1 c2 c3 c4 by (simp only: simp_thms)
qed

section \<open>Sabotage\<close>

text \<open>
  C5. A shot attempt that reaches the sabotage check with \<^verbatim>\<open>weapon_sabotaged_by\<close> set
  replies with the sabotage, and the one row it saves has the reference cleared and
  \<^verbatim>\<open>weapon_jammed\<close> set; no bullet is spent. Every later attempt in a row, whatever the
  invocation, replies that the weapon is jammed (or that the clothes are wet, if they are
  at that time) and never with the sabotage again.
\<close>

theorem sabotage_single_use:
  assumes "active_powerups h ''dead'' \<le> 0" and "active_powerups h ''wet'' \<le> now e"
    and "\<not> weapon_confiscated h" and "weapon_sabotaged_by h = Some s"
  shows "outcome (shoot e h) = Sabotaged s \<and>
         weapon_sabotaged_by (hunter (shoot e h)) = None \<and>
         weapon_jammed (hunter (shoot e h)) \<and>
         saved (shoot e h) = [Save (hunter (shoot e h))] \<and>
         bullets (hunter (shoot e h)) = bullets h \<and>
         (\<forall>es. \<forall>oc \<in> set (attempts es (hunter (shoot e h))).
              (oc = Jammed \<or> oc = Wet) \<and> (\<forall>s'. oc \<noteq> Sabotaged s')) \<and>
         (\<forall>es. (\<forall>e' \<in> set es. active_powerups h ''wet'' \<le> now e') \<longrightarrow>
              attempts es (hunter (shoot e h)) = replicate (length es) Jammed)"
proof -
  define h' where "h' = hunter (shoot e h)"
  have s: "shoot e h = blocked (Sabotaged s)
            (add_stat ''shots_when_sabotaged'' 1
               (h\<lparr>weapon_sabotaged_by := None, weapon_jammed := True\<rparr>)) 0"
    using assms by (simp add: shoot_def)
  have i: "active_powerups h' ''dead'' \<le> 0" "\<not> weapon_confiscated h'"
    "weapon_sabotaged_by h' = None" "weapon_jammed h'"
    and w: "active_powerups h' ''wet'' = active_powerups h ''wet''"
    and b: "bullets h' = bullets h"
    using assms by (simp_all add: h'_def s blocked_def add_stat_def)
  note A = attempts_jammed [OF i]
  have a1: "\<forall>es. \<forall>oc \<in> set (attempts es h').
              (oc = Jammed \<or> oc = Wet) \<and> (\<forall>s'. oc \<noteq> Sabotaged s')"
    unfolding A by auto
  have a2: "\<forall>es. (\<forall>e' \<in> set es. active_powerups h ''wet'' \<le> now e') \<longrightarrow>
              attempts es h' = replicate (length es) Jammed"
    unfolding A w by (auto simp: map_replicate_const [symmetric] simp del: map_replicate_const
        intro!: map_cong) 
  have o: "outcome (shoot e h) = Sabotaged s" by (simp add: s blocked_def)
  have sv: "saved (shoot e h) = [Save h']" by (simp add: h'_def s blocked_def)
  show ?thesis
    unfolding h'_def [symmetric] using o sv i(3,4) b a1 a2 by blast
qed

theorem sabotage_single_use_witness:
  "outcome (shoot env0 hunter_sabotaged) = Sabotaged 2 \<and>
   weapon_sabotaged_by (hunter (shoot env0 hunter_sabotaged)) = None \<and>
   weapon_jammed (hunter (shoot env0 hunter_sabotaged)) \<and>
   attempts [env0, env_unlucky] (hunter (shoot env0 hunter_sabotaged)) = [Jammed, Jammed]"
proof -
  have g: "active_powerups hunter_sabotaged ''dead'' \<le> 0"
    "active_powerups hunter_sabotaged ''wet'' \<le> now env0"
    "\<not> weapon_confiscated hunter_sabotaged" "weapon_sabotaged_by hunter_sabotaged = Some 2"
    by (simp_all add: ex_defs)
  have w: "\<forall>e' \<in> set [env0, env_unlucky]. active_powerups hunter_sabotaged ''wet'' \<le> now e'"
    by (simp add: ex_defs)
  have "attempts [env0, env_unlucky] (hunter (shoot env0 hunter_sabotaged)) =
          replicate (length [env0, env_unlucky]) Jammed"
    using sabotage_single_use [OF g] w by blast
  then show ?thesis using sabotage_single_use [OF g] by simp
qed

section \<open>Homing bullets\<close>

text \<open>
  C10. When \<^verbatim>\<open>bang\<close> passes the blocking checks and the jam roll with at least one
  homing bullet, the shooter kills themself: one homing charge is used, the mirror and the
  sight lose a charge if they had one, the victim is \<^verbatim>\<open>db_hunter\<close> itself, whose
  \<^verbatim>\<open>dead\<close> counter goes up by one, the weapon is confiscated, 17 experience and one
  bullet are lost. Exactly one draw follows those of the jam roll (the accuracy roll; the
  kill-on-miss roll is not made), and the whole result is the same for any other values of
  the draws after the jam roll.
\<close>

theorem homing_self_kill:
  fixes e r h1 n
  defines "h \<equiv> get_player e (author e)"
  assumes "bang e = Attempt r"
    and "active_powerups h ''dead'' \<le> 0" and "active_powerups h ''wet'' \<le> now e"
    and "\<not> weapon_confiscated h" and "weapon_sabotaged_by h = None"
    and "\<not> weapon_jammed h" and "0 < bullets h"
    and "jam_roll e h = (True, h1, n)"
    and "1 \<le> active_powerups h ''homing_bullets''"
  shows "outcome r = Homing_self_kill \<and>
         victim r = Some Is_db_hunter \<and>
         saved r = [Save (hunter r)] \<and>
         draws r = Suc n \<and>
         active_powerups (hunter r) ''homing_bullets'' = active_powerups h ''homing_bullets'' - 1 \<and>
         active_powerups (hunter r) ''mirror'' =
           (if 0 < active_powerups h ''mirror'' then active_powerups h ''mirror'' - 1
            else active_powerups h ''mirror'') \<and>
         active_powerups (hunter r) ''sight'' =
           (if 0 < active_powerups h ''sight'' then active_powerups h ''sight'' - 1
            else active_powerups h ''sight'') \<and>
         active_powerups (hunter r) ''dead'' = active_powerups h ''dead'' + 1 \<and>
         weapon_confiscated (hunter r) \<and>
         experience (hunter r) = experience h - 17 \<and>
         bullets (hunter r) = bullets h - 1 \<and>
         (\<forall>f. (\<forall>i<n. f i = randint e i) \<longrightarrow> bang (e\<lparr>randint := f\<rparr>) = bang e)"
proof -
  have rd: "bot_ready e" using bang_attempt(1) [OF assms(2)] .
  have r: "r = shoot e h" using bang_attempt(2) [OF assms(2)] by (simp add: h_def)
  note E = homing_explicit [OF assms(3-10)]
  have oc: "outcome (shoot e h) = Homing_self_kill"
    unfolding E by (simp add: friendly_fire_def killing_outcome kill_message_def)
  have res: "outcome (shoot e h)
     \<in> {Missed_tree, Homing_self_kill, Suicide, Murder, Accidental_kill,
         Shot_duck, Detector_stopped, No_duck}"
    by (simp add: oc)
  have ind: "\<forall>f. (\<forall>i<n. f i = randint e i) \<longrightarrow> bang (e\<lparr>randint := f\<rparr>) = bang e"
  proof (intro allI impI)
    fix f assume f: "\<forall>i<n. f i = randint e i"
    have j: "jam_roll (e\<lparr>randint := f\<rparr>) h = (True, h1, n)"
      using assms(9) f by (rule jam_roll_randint)
    have w: "active_powerups h ''wet'' \<le> now (e\<lparr>randint := f\<rparr>)" using assms(4) by simp
    have "shoot (e\<lparr>randint := f\<rparr>) h = shoot e h"
      unfolding E homing_explicit [OF assms(3) w assms(5-8) j assms(10)]
      by (simp add: friendly_fire_randint)
    then show "bang (e\<lparr>randint := f\<rparr>) = bang e"
      by (simp add: bang_def h_def)
  qed
  show ?thesis
  proof (rule shoot_path [OF res])
    fix h1' n' h2
    assume j: "jam_roll e h = (True, h1', n')"
      and f: "same_but_powerups (spend_bullet h) h2"
      and po: "\<And>k. k \<noteq> ''sand'' \<Longrightarrow> k \<noteq> ''mirror'' \<Longrightarrow> k \<noteq> ''sight'' \<Longrightarrow>
           k \<noteq> ''homing_bullets'' \<Longrightarrow> active_powerups h2 k = active_powerups h k"
      and ho: "active_powerups h2 ''homing_bullets'' =
        (if 1 \<le> active_powerups h ''homing_bullets''
         then active_powerups h ''homing_bullets'' - 1
         else active_powerups h ''homing_bullets'')"
      and mi: "active_powerups h2 ''mirror'' =
        (if 0 < active_powerups h ''mirror'' then active_powerups h ''mirror'' - 1
         else active_powerups h ''mirror'')"
      and si: "active_powerups h2 ''sight'' =
        (if 0 < active_powerups h ''sight'' then active_powerups h ''sight'' - 1
         else active_powerups h ''sight'')"
      and br: "(\<exists>ms tgt. shoot e h =
              friendly_fire e h2 ms (1 \<le> active_powerups h ''homing_bullets'') tgt (Suc n') \<and>
            (1 \<le> active_powerups h ''homing_bullets'' \<longrightarrow> tgt = Some (author e)) \<and>
            (\<not> 1 \<le> active_powerups h ''homing_bullets'' \<longrightarrow> tgt = target e) \<and>
            (ms \<longleftrightarrow> tgt = None)) \<or>
         (\<not> 1 \<le> active_powerups h ''homing_bullets'' \<and> shoot e h = clean_hit e h2 (Suc n'))"
    have n: "n' = n" using j assms(9) by simp
    have eq: "shoot e h = friendly_fire e h2 False True (Some (author e)) (Suc n)"
      using br assms(10) n by auto
    have nm: "outcome (friendly_fire e h2 False True (Some (author e)) (Suc n)) \<noteq> Missed_tree"
      using oc unfolding eq by simp
    have t3: "False \<longleftrightarrow> Some (author e) = None" by simp
    note D = friendly_fire_death [of e h2 False True "Some (author e)" "Suc n", OF nm t3]
    have x: "experience h2 = experience h" and p: "pid h2 = pid h"
      and b: "bullets h2 = bullets h - 1"
      using same_but_powerups_fields [OF f] by (simp_all add: spend_bullet_fields)
    have d: "active_powerups h2 ''dead'' = active_powerups h ''dead''" using po by simp
    have pe: "pid (get_player e (author e)) = pid h2" using p by (simp add: h_def)
    note K = D(8) [OF refl pe]
    have c1: "outcome r = Homing_self_kill" using oc by (simp add: r)
    have c2: "victim r = Some Is_db_hunter \<and> saved r = [Save (hunter r)]"
      using K by (simp add: r eq)
    have c3: "draws r = Suc n" using D(5) by (simp add: r eq)
    have c4: "active_powerups (hunter r) ''homing_bullets'' = active_powerups h ''homing_bullets'' - 1"
      using K ho assms(10) by (simp add: r eq)
    have c5: "active_powerups (hunter r) ''mirror'' =
           (if 0 < active_powerups h ''mirror'' then active_powerups h ''mirror'' - 1
            else active_powerups h ''mirror'')"
      using K mi by (simp add: r eq)
    have c6: "active_powerups (hunter r) ''sight'' =
           (if 0 < active_powerups h ''sight'' then active_powerups h ''sight'' - 1
            else active_powerups h ''sight'')"
      using K si by (simp add: r eq)
    have c7: "active_powerups (hunter r) ''dead'' = active_powerups h ''dead'' + 1"
      using K d by (simp add: r eq)
    have c8: "weapon_confiscated (hunter r)" using D(1) by (simp add: r eq)
    have c9: "experience (hunter r) = experience h - 17" using D(2) by (simp add: r eq x)
    have c10: "bullets (hunter r) = bullets h - 1" using D(6) by (simp add: r eq b)
    show ?thesis using c1 c2 c3 c4 c5 c6 c7 c8 c9 c10 ind by blast
  qed
qed

theorem homing_self_kill_witness:
  "outcome (shoot env_homing hunter_homing) = Homing_self_kill \<and>
   victim (shoot env_homing hunter_homing) = Some Is_db_hunter \<and>
   draws (shoot env_homing hunter_homing) = 2 \<and>
   active_powerups (hunter (shoot env_homing hunter_homing)) ''homing_bullets'' = 0 \<and>
   active_powerups (hunter (shoot env_homing hunter_homing)) ''mirror'' = 0 \<and>
   active_powerups (hunter (shoot env_homing hunter_homing)) ''dead'' = 1 \<and>
   weapon_confiscated (hunter (shoot env_homing hunter_homing)) \<and>
   experience (hunter (shoot env_homing hunter_homing)) = - 17 \<and>
   bang (env_homing\<lparr>randint := (\<lambda>i. if i = 0 then 1 else 100)\<rparr>) = bang env_homing"
proof -
  have gp: "get_player env_homing (author env_homing) = hunter_homing"
    by (simp add: ex_defs)
  have b: "bang env_homing = Attempt (shoot env_homing hunter_homing)"
    by (simp add: bang_def ex_defs)
  have g: "active_powerups (get_player env_homing (author env_homing)) ''dead'' \<le> 0"
    "active_powerups (get_player env_homing (author env_homing)) ''wet'' \<le> now env_homing"
    "\<not> weapon_confiscated (get_player env_homing (author env_homing))"
    "weapon_sabotaged_by (get_player env_homing (author env_homing)) = None"
    "\<not> weapon_jammed (get_player env_homing (author env_homing))"
    "0 < bullets (get_player env_homing (author env_homing))"
    by (simp_all add: ex_defs)
  have j: "jam_roll env_homing (get_player env_homing (author env_homing))
             = (True, hunter_homing, 1)"
    by (simp add: ex_defs jam_roll_def compute_luck_def)
  have h: "1 \<le> active_powerups (get_player env_homing (author env_homing)) ''homing_bullets''"
    by (simp add: ex_defs)
  have v: "active_powerups hunter_homing ''homing_bullets'' = 1"
    "active_powerups hunter_homing ''mirror'' = 1"
    "active_powerups hunter_homing ''dead'' = 0" "experience hunter_homing = 0"
    by (simp_all add: ex_defs)
  note T = homing_self_kill [OF b g j h, unfolded gp]
  from T have "\<forall>f. (\<forall>i<1. f i = randint env_homing i) \<longrightarrow>
                 bang (env_homing\<lparr>randint := f\<rparr>) = bang env_homing"
    by (elim conjE)
  from this [rule_format, of "\<lambda>i. if i = 0 then 1 else 100"]
  have i: "bang (env_homing\<lparr>randint := (\<lambda>i. if i = 0 then 1 else 100)\<rparr>) = bang env_homing"
    by (simp add: ex_defs)
  have c: "outcome (shoot env_homing hunter_homing) = Homing_self_kill \<and>
   victim (shoot env_homing hunter_homing) = Some Is_db_hunter \<and>
   draws (shoot env_homing hunter_homing) = 2 \<and>
   active_powerups (hunter (shoot env_homing hunter_homing)) ''homing_bullets'' = 0 \<and>
   active_powerups (hunter (shoot env_homing hunter_homing)) ''mirror'' = 0 \<and>
   active_powerups (hunter (shoot env_homing hunter_homing)) ''dead'' = 1 \<and>
   weapon_confiscated (hunter (shoot env_homing hunter_homing)) \<and>
   experience (hunter (shoot env_homing hunter_homing)) = - 17"
    using T by (simp add: v)
  show ?thesis using c i by (simp only: simp_thms)
qed

end
